theory Spec2Isabelle
  imports Complex_Main "HOL-Library.Multiset"
begin

section \<open>The Adam optimizer of \<^verbatim>\<open>src/optimizers/adam_optimizer.ts\<close>\<close>

text \<open>
  The class \<^verbatim>\<open>AdamOptimizer\<close> is embedded with explicit state passing: a method takes
  the optimizer and the engine's store of variables, which it mutates, and returns them
  updated, or an error where the source raises. The moments of eager mode are variables
  of that store, as the values of the parameters are. Tensor elements are exact reals, so
  \<open>/\<close> and \<open>sqrt\<close> are the total functions of HOL; the section on divisors shows that,
  for an optimizer built with decay rates in the open unit interval and a positive
  epsilon and called on names registered when it is built, no divisor of the update is
  zero and no square root is taken of a negative number. The disposal of tensors
  (\<^verbatim>\<open>keep\<close>, \<^verbatim>\<open>tidy\<close>, \<^verbatim>\<open>dispose\<close>) changes no value and is left out.
\<close>

subsection \<open>Tensors\<close>

text \<open>
  A tensor is its shape and its flat list of values. A \<^verbatim>\<open>Scalar\<close> field of the class
  is a \<open>real\<close>.
\<close>

record tensor =
  shape :: "nat list"
  vals :: "real list"

definition wf_tensor :: "tensor \<Rightarrow> bool" where
  "wf_tensor t = (length (vals t) = prod_list (shape t))"

datatype error = ShapeMismatch | MissingVariable | AlreadyRegistered | NotInArrayMap

definition ebind :: "error + 'a \<Rightarrow> ('a \<Rightarrow> error + 'b) \<Rightarrow> error + 'b" where
  "ebind m f = (case m of Inl e \<Rightarrow> Inl e | Inr x \<Rightarrow> f x)"

text \<open>
  Modelled from the spec: the operations of the class \<^verbatim>\<open>Tensor\<close> and of
  \<^verbatim>\<open>ops\<close>, which the source file imports and does not define. The spec lists
  them as elementwise \<open>+ - * /\<close>, \<^verbatim>\<open>square()\<close>, \<^verbatim>\<open>sqrt()\<close>, scalar
  broadcast and \<^verbatim>\<open>zerosLike\<close>, and says that tensors whose shapes
  disagree raise a shape mismatch. An operation of a scalar with a tensor broadcasts the
  scalar; an operation of two tensors needs equal shapes. The suffix tells the kind of the
  argument: \<open>mulS k t\<close> is \<^verbatim>\<open>k.mul(t)\<close> and \<open>addS k t\<close> is \<^verbatim>\<open>k.add(t)\<close> for a scalar
  \<open>k\<close>, \<open>divS t k\<close> is \<^verbatim>\<open>t.div(k)\<close>, and \<open>addT a b\<close>, \<open>divT a b\<close> are \<^verbatim>\<open>a.add(b)\<close>,
  \<^verbatim>\<open>a.div(b)\<close> for two tensors.
\<close>

definition zerosLike :: "tensor \<Rightarrow> tensor" where
  "zerosLike t = \<lparr>shape = shape t, vals = replicate (prod_list (shape t)) 0\<rparr>"

definition mulS :: "real \<Rightarrow> tensor \<Rightarrow> tensor" where
  "mulS k t = \<lparr>shape = shape t, vals = map (\<lambda>x. k * x) (vals t)\<rparr>"

definition addS :: "real \<Rightarrow> tensor \<Rightarrow> tensor" where
  "addS k t = \<lparr>shape = shape t, vals = map (\<lambda>x. k + x) (vals t)\<rparr>"

definition divS :: "tensor \<Rightarrow> real \<Rightarrow> tensor" where
  "divS t k = \<lparr>shape = shape t, vals = map (\<lambda>x. x / k) (vals t)\<rparr>"

definition squareT :: "tensor \<Rightarrow> tensor" where
  "squareT t = \<lparr>shape = shape t, vals = map (\<lambda>x. x * x) (vals t)\<rparr>"

definition sqrtT :: "tensor \<Rightarrow> tensor" where
  "sqrtT t = \<lparr>shape = shape t, vals = map sqrt (vals t)\<rparr>"

definition addT :: "tensor \<Rightarrow> tensor \<Rightarrow> error + tensor" where
  "addT a b =
     (if shape a = shape b
      then Inr \<lparr>shape = shape a, vals = map2 (\<lambda>x y. x + y) (vals a) (vals b)\<rparr>
      else Inl ShapeMismatch)"

definition divT :: "tensor \<Rightarrow> tensor \<Rightarrow> error + tensor" where
  "divT a b =
     (if shape a = shape b
      then Inr \<lparr>shape = shape a, vals = map2 (\<lambda>x y. x / y) (vals a) (vals b)\<rparr>
      else Inl ShapeMismatch)"


subsection \<open>Variables and the engine's store\<close>

type_synonym name = string

text \<open>
  Modelled from the spec: the variables of \<^verbatim>\<open>tensor.ts\<close> and the store
  \<^verbatim>\<open>ENV.engine.registeredVariables\<close> of \<^verbatim>\<open>environment.ts\<close>, which the source file
  imports. The spec has the store give the current value of a named variable and has
  \<^verbatim>\<open>assign\<close> change a variable in place. As the repository's constructor of variables
  does, a variable created without a name takes the decimal form of the counter
  \<^verbatim>\<open>Variable.nextVarId\<close> as its name, advances the counter, and is registered in the store
  under that name; registering a name twice raises. A name is registered once and a
  variable is registered when it is created, so a variable object is identified with its
  name, and the store maps the name to the variable's current content. Two references to
  one variable are two occurrences of its name. The record holds the store together with
  the counter.
\<close>

record Engine =
  registeredVariables :: "name \<rightharpoonup> tensor"
  nextVarId :: nat

definition digit :: "nat \<Rightarrow> char" where
  "digit d = ''0123456789'' ! d"

fun toString :: "nat \<Rightarrow> string" where
  "toString n = (if n < 10 then [digit n] else toString (n div 10) @ [digit (n mod 10)])"

text \<open>\<^verbatim>\<open>variable(initialValue, trainable)\<close>: the new variable's name and the store with
  the variable registered.\<close>

definition variable :: "tensor \<Rightarrow> Engine \<Rightarrow> error + (name \<times> Engine)" where
  "variable initialValue eng =
     (let varName = toString (nextVarId eng) in
      if registeredVariables eng varName \<noteq> None then Inl AlreadyRegistered
      else Inr (varName,
                eng\<lparr>registeredVariables := (registeredVariables eng)(varName \<mapsto> initialValue),
                    nextVarId := nextVarId eng + 1\<rparr>))"

text \<open>The content of a variable, read when an operation takes the variable as an
  argument; \<open>MissingVariable\<close> when the store has no variable of that name
  (\<^verbatim>\<open>undefined\<close> in the source).\<close>

definition read :: "Engine \<Rightarrow> name \<Rightarrow> error + tensor" where
  "read eng x =
     (case registeredVariables eng x of None \<Rightarrow> Inl MissingVariable | Some t \<Rightarrow> Inr t)"

text \<open>\<^verbatim>\<open>target.assign(newValue)\<close>: the variable keeps its identity and takes the new
  content, which must have the shape of its current content.\<close>

definition assign :: "name \<Rightarrow> tensor \<Rightarrow> Engine \<Rightarrow> error + Engine" where
  "assign target newValue eng =
     (case registeredVariables eng target of
        None \<Rightarrow> Inl MissingVariable
      | Some current \<Rightarrow>
          if shape newValue = shape current
          then Inr (eng\<lparr>registeredVariables := (registeredVariables eng)(target \<mapsto> newValue)\<rparr>)
          else Inl ShapeMismatch)"

subsection \<open>The optimizer's state\<close>

text \<open>The key of a \<^verbatim>\<open>TensorArrayMap\<close>: the identity of \<^verbatim>\<open>node.output\<close>.\<close>

type_synonym node = nat

text \<open>The two maps of eager mode hold variables; the two maps of graph mode hold
  tensors.\<close>

record AdamOptimizer =
  learningRate :: real
  c :: real
  eps :: real
  beta1 :: real
  beta2 :: real
  accBeta1 :: real
  accBeta2 :: real
  one :: real
  accumulatedFirstMoment :: "name \<rightharpoonup> name"
  accumulatedSecondMoment :: "name \<rightharpoonup> name"
  firstMomentGraph :: "node \<rightharpoonup> tensor"
  secondMomentGraph :: "node \<rightharpoonup> tensor"


text \<open>
  The constructor, and the constructor called without \<^verbatim>\<open>epsilon\<close>, which defaults to
  \<open>1e-8\<close>. The list of variable nodes goes to the base class.
\<close>

definition constructor :: "real \<Rightarrow> real \<Rightarrow> real \<Rightarrow> real \<Rightarrow> AdamOptimizer" where
  "constructor lr b1 b2 epsilon =
     \<lparr>learningRate = lr, c = - lr, eps = epsilon, beta1 = b1, beta2 = b2,
      accBeta1 = b1, accBeta2 = b2, one = 1,
      accumulatedFirstMoment = Map.empty, accumulatedSecondMoment = Map.empty,
      firstMomentGraph = Map.empty, secondMomentGraph = Map.empty\<rparr>"

definition constructor_default :: "real \<Rightarrow> real \<Rightarrow> real \<Rightarrow> AdamOptimizer" where
  "constructor_default lr b1 b2 = constructor lr b1 b2 (1 / 10 ^ 8)"

subsection \<open>\<^verbatim>\<open>applyGradients\<close>\<close>

text \<open>
  The body of the \<^verbatim>\<open>tidy\<close> closure (lines 77 to 97), given the two moment variables,
  the gradient and the name whose variable is \<^verbatim>\<open>value\<close>. Each variable is read where the
  source passes it to an operation, so the value is read after the two moments are
  assigned.
\<close>

definition tidy_update ::
  "AdamOptimizer \<Rightarrow> name \<Rightarrow> name \<Rightarrow> tensor \<Rightarrow> name \<Rightarrow> Engine \<Rightarrow> error + Engine" where
  "tidy_update s firstMoment secondMoment gradient val eng =
     ebind (read eng firstMoment) (\<lambda>fm.
     ebind (addT (mulS (beta1 s) fm) (mulS (one s - beta1 s) gradient))
       (\<lambda>newFirstMoment.
     ebind (read eng secondMoment) (\<lambda>sm.
     ebind (addT (mulS (beta2 s) sm) (mulS (one s - beta2 s) (squareT gradient)))
       (\<lambda>newSecondMoment.
     let biasCorrectedFirstMoment = divS newFirstMoment (one s - accBeta1 s);
         biasCorrectedSecondMoment = divS newSecondMoment (one s - accBeta2 s)
     in
     ebind (assign firstMoment newFirstMoment eng) (\<lambda>eng1.
     ebind (assign secondMoment newSecondMoment eng1) (\<lambda>eng2.
     ebind (divT biasCorrectedFirstMoment (addS (eps s) (sqrtT biasCorrectedSecondMoment)))
       (\<lambda>quotient.
     ebind (read eng2 val) (\<lambda>v.
     ebind (addT (mulS (c s) quotient) v) (\<lambda>newValue.
     assign val newValue eng2)))))))))"

text \<open>
  The moment variable of a name in one of the two maps (lines 62 to 66, and 67 to 71):
  the one the map holds, or a new variable made of \<^verbatim>\<open>zerosLike(value)\<close> and put in the
  map; \<^verbatim>\<open>zerosLike\<close> of an unregistered name raises. The result is the map, the moment
  variable and the store.
\<close>

definition moment_variable ::
  "(name \<rightharpoonup> name) \<Rightarrow> name \<Rightarrow> Engine \<Rightarrow> error + ((name \<rightharpoonup> name) \<times> name \<times> Engine)" where
  "moment_variable moments variableName eng =
     (case moments variableName of
        Some m \<Rightarrow> Inr (moments, m, eng)
      | None \<Rightarrow>
          ebind (read eng variableName) (\<lambda>v.
          ebind (variable (zerosLike v) eng) (\<lambda>(m, eng').
          Inr (moments(variableName \<mapsto> m), m, eng'))))"

text \<open>One iteration of the loop over the gradient map (lines 61 to 97).\<close>

definition update_variable ::
  "name \<Rightarrow> tensor \<Rightarrow> AdamOptimizer \<times> Engine \<Rightarrow> error + (AdamOptimizer \<times> Engine)" where
  "update_variable variableName gradient st =
     (let s = fst st; eng = snd st in
      ebind (moment_variable (accumulatedFirstMoment s) variableName eng)
        (\<lambda>(firstMoments, firstMoment, eng1).
      ebind (moment_variable (accumulatedSecondMoment s) variableName eng1)
        (\<lambda>(secondMoments, secondMoment, eng2).
      ebind (tidy_update s firstMoment secondMoment gradient variableName eng2) (\<lambda>eng3.
      Inr (s\<lparr>accumulatedFirstMoment := firstMoments,
             accumulatedSecondMoment := secondMoments\<rparr>, eng3)))))"

text \<open>
  The gradient map is an object: its keys are distinct and the loop visits them in the
  object's key order, so it is a list of pairs. A gradient is a tensor value, not a
  variable of the store.
\<close>

fun apply_loop ::
  "(name \<times> tensor) list \<Rightarrow> AdamOptimizer \<times> Engine \<Rightarrow> error + (AdamOptimizer \<times> Engine)" where
  "apply_loop [] st = Inr st"
| "apply_loop ((variableName, gradient) # rest) st =
     ebind (update_variable variableName gradient st) (apply_loop rest)"

definition applyGradients ::
  "(name \<times> tensor) list \<Rightarrow> AdamOptimizer \<times> Engine \<Rightarrow> error + (AdamOptimizer \<times> Engine)" where
  "applyGradients grads st =
     ebind (apply_loop grads st) (\<lambda>(s, eng).
       Inr (s\<lparr>accBeta1 := accBeta1 s * beta1 s, accBeta2 := accBeta2 s * beta2 s\<rparr>, eng))"

text \<open>A sequence of calls of \<^verbatim>\<open>applyGradients\<close>, one per gradient map of the list.\<close>

fun run ::
  "(name \<times> tensor) list list \<Rightarrow> AdamOptimizer \<times> Engine \<Rightarrow> error + (AdamOptimizer \<times> Engine)" where
  "run [] st = Inr st"
| "run (gs # gss) st = ebind (applyGradients gs st) (run gss)"

subsection \<open>\<^verbatim>\<open>afterBatch\<close>\<close>







subsection \<open>Notions used in the statements\<close>

text \<open>
  What the closure computes from the contents of the first moment, the second moment and
  the value, when the three are different variables: the new first moment, the new second
  moment and the new value.
\<close>

definition closure_values ::
  "AdamOptimizer \<Rightarrow> tensor \<Rightarrow> tensor \<Rightarrow> tensor \<Rightarrow> tensor
     \<Rightarrow> error + (tensor \<times> tensor \<times> tensor)" where
  "closure_values s fm sm g v =
     ebind (addT (mulS (beta1 s) fm) (mulS (one s - beta1 s) g)) (\<lambda>a.
     ebind (addT (mulS (beta2 s) sm) (mulS (one s - beta2 s) (squareT g))) (\<lambda>b.
     ebind (divT (divS a (one s - accBeta1 s))
              (addS (eps s) (sqrtT (divS b (one s - accBeta2 s))))) (\<lambda>q.
     ebind (addT (mulS (c s) q) v) (\<lambda>v'. Inr (a, b, v')))))"

text \<open>The store with new contents for three variables.\<close>

definition stored :: "name \<Rightarrow> name \<Rightarrow> name \<Rightarrow> Engine \<Rightarrow> tensor \<times> tensor \<times> tensor \<Rightarrow> Engine" where
  "stored x y z eng r =
     (case r of (a, b, v') \<Rightarrow>
        eng\<lparr>registeredVariables := (registeredVariables eng)(x \<mapsto> a, y \<mapsto> b, z \<mapsto> v')\<rparr>)"

text \<open>The tensor that the first moment, and the second moment, of a name holds: the
  content of the moment variable of the name.\<close>

definition firstMoment_of :: "AdamOptimizer \<times> Engine \<Rightarrow> name \<Rightarrow> tensor option" where
  "firstMoment_of st n =
     (case accumulatedFirstMoment (fst st) n of
        None \<Rightarrow> None | Some m \<Rightarrow> registeredVariables (snd st) m)"

definition secondMoment_of :: "AdamOptimizer \<times> Engine \<Rightarrow> name \<Rightarrow> tensor option" where
  "secondMoment_of st n =
     (case accumulatedSecondMoment (fst st) n of
        None \<Rightarrow> None | Some m \<Rightarrow> registeredVariables (snd st) m)"

text \<open>The content that an update reads for a moment: that of the moment variable, or
  zeros of the value's shape when the variable is yet to be created.\<close>

definition moment_or_zeros :: "tensor option \<Rightarrow> tensor option \<Rightarrow> error + tensor" where
  "moment_or_zeros moment val =
     (case moment of
        Some m \<Rightarrow> Inr m
      | None \<Rightarrow> (case val of None \<Rightarrow> Inl MissingVariable | Some v \<Rightarrow> Inr (zerosLike v)))"

text \<open>The \<open>i\<close>-th element of a moment; a moment not yet created reads as zero.\<close>

definition moment_val :: "tensor option \<Rightarrow> nat \<Rightarrow> real" where
  "moment_val m i = (case m of None \<Rightarrow> 0 | Some t \<Rightarrow> vals t ! i)"

text \<open>The scalars that an update reads.\<close>

definition params :: "AdamOptimizer \<Rightarrow> real \<times> real \<times> real \<times> real \<times> real \<times> real \<times> real" where
  "params s = (c s, eps s, beta1 s, beta2 s, one s, accBeta1 s, accBeta2 s)"

text \<open>What the optimizer and the store hold for one name: the two moment tensors and
  the value.\<close>

definition entry ::
  "AdamOptimizer \<times> Engine \<Rightarrow> name \<Rightarrow> tensor option \<times> tensor option \<times> tensor option" where
  "entry st n = (firstMoment_of st n, secondMoment_of st n, registeredVariables (snd st) n)"

text \<open>The optimizer without its two moment maps.\<close>

definition no_moments :: "AdamOptimizer \<Rightarrow> AdamOptimizer" where
  "no_moments s = s\<lparr>accumulatedFirstMoment := Map.empty, accumulatedSecondMoment := Map.empty\<rparr>"

text \<open>
  The moment maps are well formed: every moment variable is registered, and no variable
  is the moment of two names or a first and a second moment at once. The state of a fresh
  optimizer is so, and a call on parameters keeps it so.
\<close>

definition well_formed :: "AdamOptimizer \<times> Engine \<Rightarrow> bool" where
  "well_formed st =
     ((\<forall>n m. accumulatedFirstMoment (fst st) n = Some m
          \<longrightarrow> registeredVariables (snd st) m \<noteq> None) \<and>
      (\<forall>n m. accumulatedSecondMoment (fst st) n = Some m
          \<longrightarrow> registeredVariables (snd st) m \<noteq> None) \<and>
      (\<forall>n k m. accumulatedFirstMoment (fst st) n = Some m \<and>
          accumulatedFirstMoment (fst st) k = Some m \<longrightarrow> n = k) \<and>
      (\<forall>n k m. accumulatedSecondMoment (fst st) n = Some m \<and>
          accumulatedSecondMoment (fst st) k = Some m \<longrightarrow> n = k) \<and>
      (\<forall>n k m. accumulatedFirstMoment (fst st) n = Some m
          \<longrightarrow> accumulatedSecondMoment (fst st) k \<noteq> Some m))"

text \<open>A name is a parameter: it is registered and is not the name of a moment
  variable of the optimizer.\<close>

definition parameter :: "AdamOptimizer \<times> Engine \<Rightarrow> name \<Rightarrow> bool" where
  "parameter st n =
     (registeredVariables (snd st) n \<noteq> None \<and>
      (\<forall>k. accumulatedFirstMoment (fst st) k \<noteq> Some n) \<and>
      (\<forall>k. accumulatedSecondMoment (fst st) k \<noteq> Some n))"

text \<open>A tensor whose elements are all zero.\<close>

definition zero_tensor :: "tensor \<Rightarrow> bool" where
  "zero_tensor t = list_all (\<lambda>x. x = 0) (vals t)"


text \<open>The names of a sequence of gradient maps.\<close>

definition names_of :: "(name \<times> tensor) list list \<Rightarrow> name set" where
  "names_of gss = (\<Union>gs \<in> set gss. fst ` set gs)"

text \<open>What an update computes for a name from what is held for the name.\<close>

definition entry_update ::
  "AdamOptimizer \<Rightarrow> tensor \<Rightarrow> tensor option \<times> tensor option \<times> tensor option
     \<Rightarrow> error + (tensor \<times> tensor \<times> tensor)" where
  "entry_update s g e =
     (case e of (fm, sm, val) \<Rightarrow>
        (case val of
           None \<Rightarrow> Inl MissingVariable
         | Some v \<Rightarrow>
             ebind (moment_or_zeros fm val) (\<lambda>fmc.
             ebind (moment_or_zeros sm val) (\<lambda>smc. closure_values s fmc smc g v))))"

text \<open>The number of moment variables that the update of a name creates, and the store
  having no variable under the next \<open>K\<close> names that the counter gives.\<close>

definition need :: "AdamOptimizer \<Rightarrow> name \<Rightarrow> nat" where
  "need s n =
     (if accumulatedFirstMoment s n = None then 1 else 0) +
     (if accumulatedSecondMoment s n = None then 1 else 0)"

definition room :: "Engine \<Rightarrow> nat \<Rightarrow> bool" where
  "room eng K = (\<forall>j < K. registeredVariables eng (toString (nextVarId eng + j)) = None)"



text \<open>
  What eager mode keeps in the optimizer: the scalars (hyperparameters and accumulators)
  and the two moment maps. Two states are equal for eager mode when they hold equal ones
  and equal stores of variables.
\<close>

definition eager_state ::
  "AdamOptimizer \<Rightarrow> (real \<times> real \<times> real \<times> real \<times> real \<times> real \<times> real)
     \<times> (name \<rightharpoonup> name) \<times> (name \<rightharpoonup> name)" where
  "eager_state s = (params s, accumulatedFirstMoment s, accumulatedSecondMoment s)"

definition same_eager :: "AdamOptimizer \<times> Engine \<Rightarrow> AdamOptimizer \<times> Engine \<Rightarrow> bool" where
  "same_eager a b = (eager_state (fst a) = eager_state (fst b) \<and> snd a = snd b)"

text \<open>
  The invariant of the moment maps: the names that have a first moment, and those that
  have a second moment, are the names of \<open>N\<close>; the moment variable of a name and the name
  are registered, with contents of the same shape; and a name registered in \<open>init\<close> is
  registered with the shape that it has in \<open>init\<close>.
\<close>

definition moments_shaped ::
  "name set \<Rightarrow> (name \<rightharpoonup> tensor) \<Rightarrow> AdamOptimizer \<times> Engine \<Rightarrow> bool" where
  "moments_shaped N init st =
     ((\<forall>k. k \<in> N \<longleftrightarrow> accumulatedFirstMoment (fst st) k \<noteq> None) \<and>
      (\<forall>k. k \<in> N \<longleftrightarrow> accumulatedSecondMoment (fst st) k \<noteq> None) \<and>
      (\<forall>k m. accumulatedFirstMoment (fst st) k = Some m \<longrightarrow>
         (\<exists>t x. registeredVariables (snd st) m = Some t \<and>
            registeredVariables (snd st) k = Some x \<and> shape t = shape x)) \<and>
      (\<forall>k m. accumulatedSecondMoment (fst st) k = Some m \<longrightarrow>
         (\<exists>t x. registeredVariables (snd st) m = Some t \<and>
            registeredVariables (snd st) k = Some x \<and> shape t = shape x)) \<and>
      (\<forall>k x0. init k = Some x0 \<longrightarrow>
         (\<exists>x. registeredVariables (snd st) k = Some x \<and> shape x = shape x0)))"

subsection \<open>Concrete inputs\<close>

text \<open>
  Tensors of shape \<open>[1]\<close>: the value 0, the gradient 1, and the values \<open>1/2\<close>,
  \<open>- 1/2\<close>, \<open>- 1/4\<close>, \<open>2/9\<close> and \<open>- 8/21\<close>.
\<close>

definition ex_w0 :: tensor where
  "ex_w0 = \<lparr>shape = [1], vals = [0]\<rparr>"

definition ex_g1 :: tensor where
  "ex_g1 = \<lparr>shape = [1], vals = [1]\<rparr>"

definition ex_half :: tensor where
  "ex_half = \<lparr>shape = [1], vals = [1/2]\<rparr>"

definition ex_mhalf :: tensor where
  "ex_mhalf = \<lparr>shape = [1], vals = [- 1/2]\<rparr>"


definition ex_s :: tensor where
  "ex_s = \<lparr>shape = [1], vals = [2/9]\<rparr>"

definition ex_step :: tensor where
  "ex_step = \<lparr>shape = [1], vals = [- 8/21]\<rparr>"

text \<open>
  An optimizer with learning rate 1, both decay rates \<open>1/2\<close> and epsilon 1, and a store
  with the one variable \<open>w\<close> of value 0 and the counter at 0; then the two after one call
  with the gradient 1: the moment variables of \<open>w\<close> are \<open>0\<close> and \<open>1\<close>.
\<close>

definition ex_opt0 :: AdamOptimizer where
  "ex_opt0 = constructor 1 (1/2) (1/2) 1"

definition ex_eng0 :: Engine where
  "ex_eng0 = \<lparr>registeredVariables = [''w'' \<mapsto> ex_w0], nextVarId = 0\<rparr>"

definition ex_opt1 :: AdamOptimizer where
  "ex_opt1 = ex_opt0\<lparr>accBeta1 := 1/4, accBeta2 := 1/4,
     accumulatedFirstMoment := [''w'' \<mapsto> ''0''],
     accumulatedSecondMoment := [''w'' \<mapsto> ''1'']\<rparr>"

definition ex_eng1 :: Engine where
  "ex_eng1 = \<lparr>registeredVariables = [''w'' \<mapsto> ex_mhalf, ''0'' \<mapsto> ex_half, ''1'' \<mapsto> ex_half],
     nextVarId = 2\<rparr>"


text \<open>
  The same with a second variable \<open>u\<close>; the optimizer after one call with the gradient 1
  for both, in the order \<open>w\<close>, \<open>u\<close> and in the order \<open>u\<close>, \<open>w\<close>; and the store after
  either call.
\<close>

definition ex_eng0u :: Engine where
  "ex_eng0u = \<lparr>registeredVariables = [''w'' \<mapsto> ex_w0, ''u'' \<mapsto> ex_w0], nextVarId = 0\<rparr>"




text \<open>An optimizer with \<open>beta2 = 7/9\<close>, and the optimizer and the store after one call
  with the gradient 1 for \<open>w\<close>.\<close>

definition ex_opt0c :: AdamOptimizer where
  "ex_opt0c = constructor 1 (1/2) (7/9) 1"

definition ex_opt1c :: AdamOptimizer where
  "ex_opt1c = ex_opt0c\<lparr>accBeta1 := 1/4, accBeta2 := 49/81,
     accumulatedFirstMoment := [''w'' \<mapsto> ''0''],
     accumulatedSecondMoment := [''w'' \<mapsto> ''1'']\<rparr>"

definition ex_eng1w :: Engine where
  "ex_eng1w = \<lparr>registeredVariables = [''w'' \<mapsto> ex_mhalf, ''0'' \<mapsto> ex_half, ''1'' \<mapsto> ex_s],
     nextVarId = 2\<rparr>"












text \<open>
  The optimizer with \<open>beta2 = 7/9\<close> after one call on the empty map, so that
  \<open>accBeta1 = 1/4\<close> and \<open>accBeta2 = 49/81\<close> differ from the decay rates; the store after
  the update of \<open>u\<close> with the gradient 1 from there, and after the update of \<open>w\<close> that
  follows it; and the optimizer after the call.
\<close>

definition ex_opt2c :: AdamOptimizer where
  "ex_opt2c = ex_opt0c\<lparr>accBeta1 := 1/4, accBeta2 := 49/81\<rparr>"

definition ex_eng1c :: Engine where
  "ex_eng1c = \<lparr>registeredVariables =
       [''w'' \<mapsto> ex_w0, ''u'' \<mapsto> ex_step, ''0'' \<mapsto> ex_half, ''1'' \<mapsto> ex_s],
     nextVarId = 2\<rparr>"

definition ex_eng2c :: Engine where
  "ex_eng2c = \<lparr>registeredVariables =
       [''w'' \<mapsto> ex_step, ''u'' \<mapsto> ex_step, ''0'' \<mapsto> ex_half, ''1'' \<mapsto> ex_s,
        ''2'' \<mapsto> ex_half, ''3'' \<mapsto> ex_s],
     nextVarId = 4\<rparr>"

definition ex_opt3c :: AdamOptimizer where
  "ex_opt3c = ex_opt0c\<lparr>accBeta1 := 1/8, accBeta2 := 343/729,
     accumulatedFirstMoment := [''u'' \<mapsto> ''0'', ''w'' \<mapsto> ''2''],
     accumulatedSecondMoment := [''u'' \<mapsto> ''1'', ''w'' \<mapsto> ''3'']\<rparr>"






section \<open>Basic facts\<close>

declare toString.simps [simp del]

lemma ebind_Inl [simp]: "ebind (Inl e) f = Inl e"
  by (simp add: ebind_def)

lemma ebind_Inr [simp]: "ebind (Inr x) f = f x"
  by (simp add: ebind_def)

lemma ebind_eq_Inr: "ebind m f = Inr y \<longleftrightarrow> (\<exists>x. m = Inr x \<and> f x = Inr y)"
  by (cases m) simp_all

lemma addT_eq_Inr:
  "addT a b = Inr r \<longleftrightarrow>
     shape a = shape b \<and> r = \<lparr>shape = shape a, vals = map2 (\<lambda>x y. x + y) (vals a) (vals b)\<rparr>"
  by (auto simp: addT_def)

lemma divT_eq_Inr:
  "divT a b = Inr r \<longleftrightarrow>
     shape a = shape b \<and> r = \<lparr>shape = shape a, vals = map2 (\<lambda>x y. x / y) (vals a) (vals b)\<rparr>"
  by (auto simp: divT_def)

lemma addT_shape: "addT a b = Inr r \<Longrightarrow> shape r = shape a \<and> shape b = shape a"
  by (auto simp: addT_eq_Inr)

lemma divT_shape: "divT a b = Inr r \<Longrightarrow> shape r = shape a \<and> shape b = shape a"
  by (auto simp: divT_eq_Inr)

lemma shape_simps [simp]:
  "shape (zerosLike t) = shape t" "shape (mulS k t) = shape t" "shape (addS k t) = shape t"
  "shape (divS t k) = shape t" "shape (squareT t) = shape t" "shape (sqrtT t) = shape t"
  by (simp_all add: zerosLike_def mulS_def addS_def divS_def squareT_def sqrtT_def)

lemma length_vals_simps [simp]:
  "length (vals (mulS k t)) = length (vals t)" "length (vals (addS k t)) = length (vals t)"
  "length (vals (divS t k)) = length (vals t)" "length (vals (squareT t)) = length (vals t)"
  "length (vals (sqrtT t)) = length (vals t)"
  "length (vals (zerosLike t)) = prod_list (shape t)"
  by (simp_all add: zerosLike_def mulS_def addS_def divS_def squareT_def sqrtT_def)

lemma nth_vals_simps [simp]:
  "i < length (vals t) \<Longrightarrow> vals (mulS k t) ! i = k * vals t ! i"
  "i < length (vals t) \<Longrightarrow> vals (addS k t) ! i = k + vals t ! i"
  "i < length (vals t) \<Longrightarrow> vals (divS t k) ! i = vals t ! i / k"
  "i < length (vals t) \<Longrightarrow> vals (squareT t) ! i = vals t ! i * vals t ! i"
  "i < length (vals t) \<Longrightarrow> vals (sqrtT t) ! i = sqrt (vals t ! i)"
  "i < prod_list (shape t) \<Longrightarrow> vals (zerosLike t) ! i = 0"
  by (simp_all add: zerosLike_def mulS_def addS_def divS_def squareT_def sqrtT_def)

subsection \<open>The store\<close>

lemma read_eq_Inr: "read eng x = Inr t \<longleftrightarrow> registeredVariables eng x = Some t"
  by (simp add: read_def split: option.splits)

lemma read_Some: "registeredVariables eng x = Some t \<Longrightarrow> read eng x = Inr t"
  by (simp add: read_def)

lemma assign_eq_Inr:
  "assign x t eng = Inr eng' \<longleftrightarrow>
     (\<exists>cur. registeredVariables eng x = Some cur \<and> shape t = shape cur \<and>
        eng' = eng\<lparr>registeredVariables := (registeredVariables eng)(x \<mapsto> t)\<rparr>)"
  by (auto simp: assign_def split: option.splits)

lemma assign_Some:
  "registeredVariables eng x = Some cur \<Longrightarrow> shape t = shape cur \<Longrightarrow>
     assign x t eng = Inr (eng\<lparr>registeredVariables := (registeredVariables eng)(x \<mapsto> t)\<rparr>)"
  by (simp add: assign_def)

lemma variable_eq_Inr:
  "variable t eng = Inr (m, eng') \<longleftrightarrow>
     m = toString (nextVarId eng) \<and> registeredVariables eng m = None \<and>
     eng' = eng\<lparr>registeredVariables := (registeredVariables eng)(m \<mapsto> t),
               nextVarId := nextVarId eng + 1\<rparr>"
  by (auto simp: variable_def Let_def)

lemma moment_variable_eq_Inr:
  "moment_variable ms n eng = Inr (ms', m, eng') \<longleftrightarrow>
     (ms n = Some m \<and> ms' = ms \<and> eng' = eng) \<or>
     (ms n = None \<and> ms' = ms(n \<mapsto> m) \<and> m = toString (nextVarId eng) \<and>
      registeredVariables eng m = None \<and>
      (\<exists>v. registeredVariables eng n = Some v \<and>
         eng' = eng\<lparr>registeredVariables := (registeredVariables eng)(m \<mapsto> zerosLike v),
                   nextVarId := nextVarId eng + 1\<rparr>))"
  by (cases "ms n")
    (auto simp: moment_variable_def ebind_eq_Inr read_eq_Inr variable_eq_Inr)

lemma closure_values_eq_Inr:
  "closure_values s fm sm g v = Inr (a, b, v') \<longleftrightarrow>
     (\<exists>q. shape fm = shape g \<and> shape sm = shape g \<and> shape v = shape g \<and>
        addT (mulS (beta1 s) fm) (mulS (one s - beta1 s) g) = Inr a \<and>
        addT (mulS (beta2 s) sm) (mulS (one s - beta2 s) (squareT g)) = Inr b \<and>
        divT (divS a (one s - accBeta1 s)) (addS (eps s) (sqrtT (divS b (one s - accBeta2 s))))
          = Inr q \<and>
        addT (mulS (c s) q) v = Inr v')"
  by (auto simp: closure_values_def ebind_eq_Inr addT_eq_Inr divT_eq_Inr)

lemma closure_values_shapes:
  "closure_values s fm sm g v = Inr (a, b, v') \<Longrightarrow>
     shape fm = shape v \<and> shape sm = shape v \<and> shape g = shape v \<and>
     shape a = shape v \<and> shape b = shape v \<and> shape v' = shape v"
  by (auto simp: closure_values_eq_Inr addT_eq_Inr divT_eq_Inr)

text \<open>On three different variables the closure stores what \<open>closure_values\<close> computes
  from their contents, and raises where it raises.\<close>

lemma tidy_update_distinct:
  assumes d: "x \<noteq> y" "x \<noteq> z" "y \<noteq> z"
    and r: "registeredVariables eng x = Some fm" "registeredVariables eng y = Some sm"
      "registeredVariables eng z = Some v"
  shows "tidy_update s x y g z eng = map_sum id (stored x y z eng) (closure_values s fm sm g v)"
proof (cases "addT (mulS (beta1 s) fm) (mulS (one s - beta1 s) g)")
  case (Inl e)
  then show ?thesis
    by (simp add: tidy_update_def closure_values_def read_Some [OF r(1)])
next
  case a: (Inr a)
  then have sa: "shape a = shape fm" using addT_shape [OF a] by simp
  show ?thesis
  proof (cases "addT (mulS (beta2 s) sm) (mulS (one s - beta2 s) (squareT g))")
    case (Inl e)
    with a show ?thesis
      by (simp add: tidy_update_def closure_values_def read_Some [OF r(1)] read_Some [OF r(2)])
  next
    case b: (Inr b)
    then have sb: "shape b = shape sm" using addT_shape [OF b] by simp
    let ?e1 = "eng\<lparr>registeredVariables := (registeredVariables eng)(x \<mapsto> a)\<rparr>"
    let ?e2 = "?e1\<lparr>registeredVariables := (registeredVariables ?e1)(y \<mapsto> b)\<rparr>"
    have a1: "assign x a eng = Inr ?e1" using r(1) sa by (rule assign_Some)
    have "registeredVariables ?e1 y = Some sm" using r(2) d(1) by simp
    then have a2: "assign y b ?e1 = Inr ?e2" using sb by (rule assign_Some)
    have rz: "registeredVariables ?e2 z = Some v" using r(3) d(2,3) by simp
    have start: "tidy_update s x y g z eng =
        ebind (divT (divS a (one s - accBeta1 s))
                 (addS (eps s) (sqrtT (divS b (one s - accBeta2 s))))) (\<lambda>q.
        ebind (addT (mulS (c s) q) v) (\<lambda>newValue. assign z newValue ?e2))"
      unfolding tidy_update_def Let_def
      by (simp only: read_Some [OF r(1)] read_Some [OF r(2)] read_Some [OF rz] a b a1 a2
          ebind_Inr)
    show ?thesis
    proof (cases "divT (divS a (one s - accBeta1 s))
                 (addS (eps s) (sqrtT (divS b (one s - accBeta2 s))))")
      case (Inl e)
      with a b show ?thesis by (simp add: start closure_values_def)
    next
      case q: (Inr q)
      show ?thesis
      proof (cases "addT (mulS (c s) q) v")
        case (Inl e)
        with a b q show ?thesis by (simp add: start closure_values_def)
      next
        case (Inr v')
        then have "shape v' = shape v" using addT_shape [OF Inr] by simp
        with rz have "assign z v' ?e2 =
            Inr (?e2\<lparr>registeredVariables := (registeredVariables ?e2)(z \<mapsto> v')\<rparr>)"
          by (intro assign_Some) simp_all
        with Inr a b q show ?thesis
          by (simp add: start closure_values_def stored_def)
      qed
    qed
  qed
qed

lemma update_variable_eq_Inr:
  "update_variable n g (s, eng) = Inr (s', eng') \<longleftrightarrow>
     (\<exists>fm' m1 eng1 sm' m2 eng2.
        moment_variable (accumulatedFirstMoment s) n eng = Inr (fm', m1, eng1) \<and>
        moment_variable (accumulatedSecondMoment s) n eng1 = Inr (sm', m2, eng2) \<and>
        tidy_update s m1 m2 g n eng2 = Inr eng' \<and>
        s' = s\<lparr>accumulatedFirstMoment := fm', accumulatedSecondMoment := sm'\<rparr>)"
  by (auto simp: update_variable_def Let_def ebind_eq_Inr)

lemma moment_variable_facts:
  assumes mv: "moment_variable ms n eng = Inr (ms', m, eng')"
    and v: "registeredVariables eng n = Some v"
    and notn: "\<forall>k. ms k \<noteq> Some n"
    and reg: "\<forall>k x. ms k = Some x \<longrightarrow> registeredVariables eng x \<noteq> None"
  shows "ms' = ms(n \<mapsto> m)" and "m \<noteq> n" and "registeredVariables eng' n = Some v"
    and "ms n = Some m \<or> (ms n = None \<and> registeredVariables eng m = None)"
    and "\<exists>t. registeredVariables eng' m = Some t \<and>
           moment_or_zeros (case ms n of None \<Rightarrow> None | Some x \<Rightarrow> registeredVariables eng x)
             (Some v) = Inr t"
    and "\<forall>x. x \<noteq> m \<longrightarrow> registeredVariables eng' x = registeredVariables eng x"
    and "ms n \<noteq> None \<longrightarrow> eng' = eng"
    and "ms n = None \<longrightarrow> m = toString (nextVarId eng) \<and> nextVarId eng' = nextVarId eng + 1 \<and>
           registeredVariables eng' = (registeredVariables eng)(m \<mapsto> zerosLike v)"
proof -
  from mv [unfolded moment_variable_eq_Inr] have
    cases: "(ms n = Some m \<and> ms' = ms \<and> eng' = eng) \<or>
     (ms n = None \<and> ms' = ms(n \<mapsto> m) \<and> m = toString (nextVarId eng) \<and>
      registeredVariables eng m = None \<and>
      (\<exists>w. registeredVariables eng n = Some w \<and>
         eng' = eng\<lparr>registeredVariables := (registeredVariables eng)(m \<mapsto> zerosLike w),
                   nextVarId := nextVarId eng + 1\<rparr>))" .
  then show "ms' = ms(n \<mapsto> m)" by (auto simp: fun_eq_iff)
  from cases notn v show mn: "m \<noteq> n" by auto
  from cases v mn show "registeredVariables eng' n = Some v" by auto
  from cases show "ms n = Some m \<or> (ms n = None \<and> registeredVariables eng m = None)"
    by auto
  show "\<exists>t. registeredVariables eng' m = Some t \<and>
           moment_or_zeros (case ms n of None \<Rightarrow> None | Some x \<Rightarrow> registeredVariables eng x)
             (Some v) = Inr t"
  proof (cases "ms n")
    case None
    with cases v show ?thesis by (auto simp: moment_or_zeros_def)
  next
    case (Some x)
    with cases have x: "x = m" "eng' = eng" by auto
    from reg Some obtain t where "registeredVariables eng x = Some t" by blast
    with Some x show ?thesis by (simp add: moment_or_zeros_def)
  qed
  from cases show "\<forall>x. x \<noteq> m \<longrightarrow> registeredVariables eng' x = registeredVariables eng x"
    by auto
  from cases show "ms n \<noteq> None \<longrightarrow> eng' = eng" by auto
  from cases v show "ms n = None \<longrightarrow> m = toString (nextVarId eng) \<and>
           nextVarId eng' = nextVarId eng + 1 \<and>
           registeredVariables eng' = (registeredVariables eng)(m \<mapsto> zerosLike v)"
    by auto
qed

text \<open>
  The update of a parameter, in a state with well-formed moment maps: it computes what
  \<open>entry_update\<close> gives for what is held for the name, stores the three results in the two
  moment variables of the name and in the name, and changes no other variable.
\<close>

lemma update_variable_parameter:
  assumes wf: "well_formed (s, eng)" and par: "parameter (s, eng) n"
    and upd: "update_variable n g (s, eng) = Inr (s', eng')"
  shows "\<exists>m1 m2 a b v'.
     entry_update s g (entry (s, eng) n) = Inr (a, b, v') \<and>
     accumulatedFirstMoment s' = (accumulatedFirstMoment s)(n \<mapsto> m1) \<and>
     accumulatedSecondMoment s' = (accumulatedSecondMoment s)(n \<mapsto> m2) \<and>
     no_moments s' = no_moments s \<and>
     registeredVariables eng' = (registeredVariables eng)(m1 \<mapsto> a, m2 \<mapsto> b, n \<mapsto> v') \<and>
     m1 \<noteq> m2 \<and> m1 \<noteq> n \<and> m2 \<noteq> n \<and>
     (accumulatedFirstMoment s n = Some m1 \<or>
      accumulatedFirstMoment s n = None \<and> registeredVariables eng m1 = None) \<and>
     (accumulatedSecondMoment s n = Some m2 \<or>
      accumulatedSecondMoment s n = None \<and> registeredVariables eng m2 = None)"
proof -
  from wf have
    reg1: "\<forall>k x. accumulatedFirstMoment s k = Some x \<longrightarrow> registeredVariables eng x \<noteq> None" and
    reg2: "\<forall>k x. accumulatedSecondMoment s k = Some x \<longrightarrow> registeredVariables eng x \<noteq> None" and
    disj: "\<forall>j k x. accumulatedFirstMoment s j = Some x \<longrightarrow> accumulatedSecondMoment s k \<noteq> Some x"
    unfolding well_formed_def fst_conv snd_conv by blast+
  from par obtain v where v: "registeredVariables eng n = Some v" and
    n1: "\<forall>k. accumulatedFirstMoment s k \<noteq> Some n" and
    n2: "\<forall>k. accumulatedSecondMoment s k \<noteq> Some n"
    unfolding parameter_def fst_conv snd_conv by blast
  from upd [unfolded update_variable_eq_Inr] obtain fm' m1 eng1 sm' m2 eng2 where
    mv1: "moment_variable (accumulatedFirstMoment s) n eng = Inr (fm', m1, eng1)" and
    mv2: "moment_variable (accumulatedSecondMoment s) n eng1 = Inr (sm', m2, eng2)" and
    tidy: "tidy_update s m1 m2 g n eng2 = Inr eng'" and
    s': "s' = s\<lparr>accumulatedFirstMoment := fm', accumulatedSecondMoment := sm'\<rparr>"
    by blast
  note f1 = moment_variable_facts [OF mv1 v n1 reg1]
  from f1(5) obtain fmc where
    fmc: "registeredVariables eng1 m1 = Some fmc"
    "moment_or_zeros (case accumulatedFirstMoment s n of None \<Rightarrow> None
       | Some x \<Rightarrow> registeredVariables eng x) (Some v) = Inr fmc"
    by blast
  have reg2': "\<forall>k x. accumulatedSecondMoment s k = Some x \<longrightarrow> registeredVariables eng1 x \<noteq> None"
  proof (intro allI impI)
    fix k x assume kx: "accumulatedSecondMoment s k = Some x"
    with reg2 have r: "registeredVariables eng x \<noteq> None" by blast
    show "registeredVariables eng1 x \<noteq> None"
    proof (cases "x = m1")
      case True
      with fmc(1) show ?thesis by simp
    next
      case False
      with f1(6) r show ?thesis by simp
    qed
  qed
  note f2 = moment_variable_facts [OF mv2 f1(3) n2 reg2']
  from f2(5) obtain smc where
    smc1: "registeredVariables eng2 m2 = Some smc"
    "moment_or_zeros (case accumulatedSecondMoment s n of None \<Rightarrow> None
       | Some x \<Rightarrow> registeredVariables eng1 x) (Some v) = Inr smc"
    by blast
  have m12: "m1 \<noteq> m2"
  proof
    assume eq: "m1 = m2"
    show False
    proof (cases "accumulatedSecondMoment s n")
      case None
      with f2(4) have "registeredVariables eng1 m2 = None" by simp
      with eq fmc(1) show False by simp
    next
      case (Some x)
      with f2(4) have sm2: "accumulatedSecondMoment s n = Some m2" by simp
      with reg2 have r: "registeredVariables eng m2 \<noteq> None" by blast
      show False
      proof (cases "accumulatedFirstMoment s n")
        case None
        with f1(4) have "registeredVariables eng m1 = None" by simp
        with r eq show False by simp
      next
        case (Some y)
        with f1(4) have "accumulatedFirstMoment s n = Some m1" by simp
        with sm2 eq disj show False by blast
      qed
    qed
  qed
  have smc: "moment_or_zeros (case accumulatedSecondMoment s n of None \<Rightarrow> None
       | Some x \<Rightarrow> registeredVariables eng x) (Some v) = Inr smc"
  proof (cases "accumulatedSecondMoment s n")
    case None
    with smc1(2) show ?thesis by simp
  next
    case (Some x)
    with f2(4) have "x = m2" by simp
    with m12 f1(6) have "registeredVariables eng1 x = registeredVariables eng x" by simp
    with smc1(2) Some show ?thesis by simp
  qed
  have r1: "registeredVariables eng2 m1 = Some fmc"
    using f2(6) m12 fmc(1) by simp
  from tidy tidy_update_distinct [OF m12 f1(2) f2(2) r1 smc1(1) f2(3), of s g]
  obtain a b v' where cv: "closure_values s fmc smc g v = Inr (a, b, v')" and
    eng': "eng' = stored m1 m2 n eng2 (a, b, v')"
    by (cases "closure_values s fmc smc g v") auto
  have eu: "entry_update s g (entry (s, eng) n) = Inr (a, b, v')"
    unfolding entry_update_def entry_def firstMoment_of_def secondMoment_of_def
      fst_conv snd_conv prod.case v option.case fmc(2) smc ebind_Inr
    by (rule cv)
  have regs: "registeredVariables eng' = (registeredVariables eng)(m1 \<mapsto> a, m2 \<mapsto> b, n \<mapsto> v')"
  proof
    fix x
    show "registeredVariables eng' x =
        ((registeredVariables eng)(m1 \<mapsto> a, m2 \<mapsto> b, n \<mapsto> v')) x"
    proof (cases "x = m1 \<or> x = m2 \<or> x = n")
      case True
      then show ?thesis by (auto simp: eng' stored_def)
    next
      case False
      then have "registeredVariables eng2 x = registeredVariables eng x"
        using f1(6) f2(6) by simp
      with False show ?thesis by (simp add: eng' stored_def)
    qed
  qed
  have c1: "accumulatedFirstMoment s n = Some m1 \<or>
      accumulatedFirstMoment s n = None \<and> registeredVariables eng m1 = None"
    using f1(4) by blast
  have c2: "accumulatedSecondMoment s n = Some m2 \<or>
      accumulatedSecondMoment s n = None \<and> registeredVariables eng m2 = None"
  proof (cases "accumulatedSecondMoment s n")
    case None
    with f2(4) have r: "registeredVariables eng1 m2 = None" by simp
    from m12 have "m2 \<noteq> m1" by simp
    from f1(6) [rule_format, OF this] have e:
      "registeredVariables eng1 m2 = registeredVariables eng m2" .
    from r have "registeredVariables eng m2 = None" unfolding e .
    with None show ?thesis by simp
  next
    case (Some x)
    with f2(4) show ?thesis by simp
  qed
  have s1: "accumulatedFirstMoment s' = (accumulatedFirstMoment s)(n \<mapsto> m1)"
    "accumulatedSecondMoment s' = (accumulatedSecondMoment s)(n \<mapsto> m2)"
    "no_moments s' = no_moments s"
    using f1(1) f2(1) by (simp_all add: s' no_moments_def)
  show ?thesis
    by (rule exI [of _ m1], rule exI [of _ m2], rule exI [of _ a], rule exI [of _ b],
        rule exI [of _ v'])
      (intro conjI eu s1 regs m12 f1(2) f2(2) c1 c2)
qed

lemma no_moments_params: "no_moments a = no_moments b \<Longrightarrow> params a = params b"
  by (cases a, cases b) (simp add: no_moments_def params_def)

lemma no_moments_fields:
  assumes "no_moments a = no_moments b"
  shows "learningRate a = learningRate b" "c a = c b" "eps a = eps b" "beta1 a = beta1 b"
    "beta2 a = beta2 b" "accBeta1 a = accBeta1 b" "accBeta2 a = accBeta2 b" "one a = one b"
    "firstMomentGraph a = firstMomentGraph b" "secondMomentGraph a = secondMomentGraph b"
  using assms by (cases a, cases b, simp add: no_moments_def)+

lemma closure_values_params:
  "params s1 = params s2 \<Longrightarrow> closure_values s1 fm sm g v = closure_values s2 fm sm g v"
  by (simp add: closure_values_def params_def)

lemma entry_update_params:
  assumes "params s1 = params s2"
  shows "entry_update s1 g e = entry_update s2 g e"
proof -
  have "closure_values s1 fm sm g v = closure_values s2 fm sm g v" for fm sm v
    using assms by (rule closure_values_params)
  then show ?thesis
    by (cases e) (simp add: entry_update_def split: option.splits)
qed

lemma update_variable_no_moments:
  "update_variable n g st = Inr st' \<Longrightarrow> no_moments (fst st') = no_moments (fst st)"
  by (cases st, cases st') (auto simp: update_variable_eq_Inr no_moments_def)

text \<open>What the update of a parameter leaves for the name, for the other names and for the
  other parameters.\<close>

lemma update_variable_entry:
  assumes wf: "well_formed (s, eng)" and par: "parameter (s, eng) n"
    and upd: "update_variable n g (s, eng) = Inr (s', eng')"
  shows "\<exists>a b v'. entry_update s g (entry (s, eng) n) = Inr (a, b, v') \<and>
           entry (s', eng') n = (Some a, Some b, Some v')"
    and "\<forall>k. k \<noteq> n \<longrightarrow> firstMoment_of (s', eng') k = firstMoment_of (s, eng) k \<and>
           secondMoment_of (s', eng') k = secondMoment_of (s, eng) k"
    and "\<forall>k. k \<noteq> n \<and> parameter (s, eng) k \<longrightarrow>
           registeredVariables eng' k = registeredVariables eng k"
    and "well_formed (s', eng')"
    and "\<forall>k. parameter (s, eng) k \<longrightarrow> parameter (s', eng') k"
    and "\<forall>k. k \<noteq> n \<longrightarrow> accumulatedFirstMoment s' k = accumulatedFirstMoment s k \<and>
           accumulatedSecondMoment s' k = accumulatedSecondMoment s k"
    and "\<forall>x. registeredVariables eng x \<noteq> None \<longrightarrow> registeredVariables eng' x \<noteq> None"
proof -
  let ?fm = "accumulatedFirstMoment s" and ?sm = "accumulatedSecondMoment s"
  let ?r = "registeredVariables eng"
  from update_variable_parameter [OF wf par upd] obtain m1 m2 a b v' where
    eu: "entry_update s g (entry (s, eng) n) = Inr (a, b, v')" and
    fm': "accumulatedFirstMoment s' = ?fm(n \<mapsto> m1)" and
    sm': "accumulatedSecondMoment s' = ?sm(n \<mapsto> m2)" and
    r': "registeredVariables eng' = ?r(m1 \<mapsto> a, m2 \<mapsto> b, n \<mapsto> v')" and
    d: "m1 \<noteq> m2" "m1 \<noteq> n" "m2 \<noteq> n" and
    c1: "?fm n = Some m1 \<or> ?fm n = None \<and> ?r m1 = None" and
    c2: "?sm n = Some m2 \<or> ?sm n = None \<and> ?r m2 = None"
    by blast
  from wf have
    reg1: "\<And>k x. ?fm k = Some x \<Longrightarrow> ?r x \<noteq> None" and
    reg2: "\<And>k x. ?sm k = Some x \<Longrightarrow> ?r x \<noteq> None" and
    inj1: "\<And>j k x. ?fm j = Some x \<Longrightarrow> ?fm k = Some x \<Longrightarrow> j = k" and
    inj2: "\<And>j k x. ?sm j = Some x \<Longrightarrow> ?sm k = Some x \<Longrightarrow> j = k" and
    disj: "\<And>j k x. ?fm j = Some x \<Longrightarrow> ?sm k \<noteq> Some x"
    unfolding well_formed_def fst_conv snd_conv by blast+
  from par have rn: "?r n \<noteq> None" and
    n1: "\<And>k. ?fm k \<noteq> Some n" and n2: "\<And>k. ?sm k \<noteq> Some n"
    unfolding parameter_def fst_conv snd_conv by blast+
  \<comment> \<open>a first moment of another name is none of the three variables written\<close>
  have f_other: "x \<noteq> m1 \<and> x \<noteq> m2 \<and> x \<noteq> n" if k: "k \<noteq> n" and x: "?fm k = Some x" for k x
  proof (intro conjI)
    show "x \<noteq> m1"
    proof
      assume e: "x = m1"
      from c1 show False
      proof
        assume "?fm n = Some m1"
        with x e inj1 k show False by blast
      next
        assume "?fm n = None \<and> ?r m1 = None"
        with reg1 [OF x] e show False by simp
      qed
    qed
    show "x \<noteq> m2"
    proof
      assume e: "x = m2"
      from c2 show False
      proof
        assume "?sm n = Some m2"
        with disj [OF x, of n] e show False by simp
      next
        assume "?sm n = None \<and> ?r m2 = None"
        with reg1 [OF x] e show False by simp
      qed
    qed
    show "x \<noteq> n" using n1 [of k] x by auto
  qed
  have s_other: "x \<noteq> m1 \<and> x \<noteq> m2 \<and> x \<noteq> n" if k: "k \<noteq> n" and x: "?sm k = Some x" for k x
  proof (intro conjI)
    show "x \<noteq> m1"
    proof
      assume e: "x = m1"
      from c1 show False
      proof
        assume "?fm n = Some m1"
        from disj [OF this, of k] x e show False by simp
      next
        assume "?fm n = None \<and> ?r m1 = None"
        with reg2 [OF x] e show False by simp
      qed
    qed
    show "x \<noteq> m2"
    proof
      assume e: "x = m2"
      from c2 show False
      proof
        assume "?sm n = Some m2"
        with x e inj2 k show False by blast
      next
        assume "?sm n = None \<and> ?r m2 = None"
        with reg2 [OF x] e show False by simp
      qed
    qed
    show "x \<noteq> n" using n2 [of k] x by auto
  qed
  \<comment> \<open>another parameter is none of the three variables written\<close>
  have p_other: "k \<noteq> m1 \<and> k \<noteq> m2" if pk: "parameter (s, eng) k" for k
  proof -
    from pk have rk: "?r k \<noteq> None" and
      k1: "\<And>j. ?fm j \<noteq> Some k" and k2: "\<And>j. ?sm j \<noteq> Some k"
      unfolding parameter_def fst_conv snd_conv by blast+
    have "k \<noteq> m1"
    proof
      assume e: "k = m1"
      from c1 show False
      proof
        assume "?fm n = Some m1"
        with k1 [of n] e show False by simp
      next
        assume "?fm n = None \<and> ?r m1 = None"
        with rk e show False by simp
      qed
    qed
    moreover have "k \<noteq> m2"
    proof
      assume e: "k = m2"
      from c2 show False
      proof
        assume "?sm n = Some m2"
        with k2 [of n] e show False by simp
      next
        assume "?sm n = None \<and> ?r m2 = None"
        with rk e show False by simp
      qed
    qed
    ultimately show ?thesis by simp
  qed
  have ent: "entry (s', eng') n = (Some a, Some b, Some v')"
    using d by (simp add: entry_def firstMoment_of_def secondMoment_of_def fm' sm' r')
  from eu ent show "\<exists>a b v'. entry_update s g (entry (s, eng) n) = Inr (a, b, v') \<and>
           entry (s', eng') n = (Some a, Some b, Some v')"
    by blast
  show "\<forall>k. k \<noteq> n \<longrightarrow> firstMoment_of (s', eng') k = firstMoment_of (s, eng) k \<and>
           secondMoment_of (s', eng') k = secondMoment_of (s, eng) k"
  proof (intro allI impI conjI)
    fix k assume k: "k \<noteq> n"
    show "firstMoment_of (s', eng') k = firstMoment_of (s, eng) k"
    proof (cases "?fm k")
      case None
      with k show ?thesis by (simp add: firstMoment_of_def fm')
    next
      case (Some x)
      with f_other [OF k Some] k show ?thesis by (simp add: firstMoment_of_def fm' r')
    qed
    show "secondMoment_of (s', eng') k = secondMoment_of (s, eng) k"
    proof (cases "?sm k")
      case None
      with k show ?thesis by (simp add: secondMoment_of_def sm')
    next
      case (Some x)
      with s_other [OF k Some] k show ?thesis by (simp add: secondMoment_of_def sm' r')
    qed
  qed
  show "\<forall>k. k \<noteq> n \<and> parameter (s, eng) k \<longrightarrow>
           registeredVariables eng' k = registeredVariables eng k"
  proof (intro allI impI)
    fix k assume k: "k \<noteq> n \<and> parameter (s, eng) k"
    with p_other [of k] show "registeredVariables eng' k = registeredVariables eng k"
      by (simp add: r')
  qed
  have regs: "registeredVariables eng' x \<noteq> None" if "?r x \<noteq> None" for x
    using that by (simp add: r')
  then show "\<forall>x. registeredVariables eng x \<noteq> None \<longrightarrow> registeredVariables eng' x \<noteq> None"
    by blast
  show "\<forall>k. k \<noteq> n \<longrightarrow> accumulatedFirstMoment s' k = accumulatedFirstMoment s k \<and>
           accumulatedSecondMoment s' k = accumulatedSecondMoment s k"
    by (simp add: fm' sm')
  show "well_formed (s', eng')"
    unfolding well_formed_def fst_conv snd_conv
  proof (intro conjI allI impI)
    fix j x assume "accumulatedFirstMoment s' j = Some x"
    then have "x = m1 \<or> ?fm j = Some x" by (cases "j = n") (simp_all add: fm')
    then show "registeredVariables eng' x \<noteq> None"
      using reg1 [of j x] regs by (auto simp: r')
  next
    fix j x assume "accumulatedSecondMoment s' j = Some x"
    then have "x = m2 \<or> ?sm j = Some x" by (cases "j = n") (simp_all add: sm')
    then show "registeredVariables eng' x \<noteq> None"
      using reg2 [of j x] regs by (auto simp: r')
  next
    fix j k x
    assume a: "accumulatedFirstMoment s' j = Some x \<and> accumulatedFirstMoment s' k = Some x"
    show "j = k"
    proof (cases "j = n")
      case jn: True
      show ?thesis
      proof (cases "k = n")
        case True
        with jn show ?thesis by simp
      next
        case False
        with a jn have "x = m1" "?fm k = Some x" by (simp_all add: fm')
        with f_other [OF False] show ?thesis by blast
      qed
    next
      case jn: False
      show ?thesis
      proof (cases "k = n")
        case True
        with a jn have "x = m1" "?fm j = Some x" by (simp_all add: fm')
        with f_other [OF jn] show ?thesis by blast
      next
        case False
        with a jn have "?fm j = Some x" "?fm k = Some x" by (simp_all add: fm')
        then show ?thesis by (rule inj1)
      qed
    qed
  next
    fix j k x
    assume a: "accumulatedSecondMoment s' j = Some x \<and> accumulatedSecondMoment s' k = Some x"
    show "j = k"
    proof (cases "j = n")
      case jn: True
      show ?thesis
      proof (cases "k = n")
        case True
        with jn show ?thesis by simp
      next
        case False
        with a jn have "x = m2" "?sm k = Some x" by (simp_all add: sm')
        with s_other [OF False] show ?thesis by blast
      qed
    next
      case jn: False
      show ?thesis
      proof (cases "k = n")
        case True
        with a jn have "x = m2" "?sm j = Some x" by (simp_all add: sm')
        with s_other [OF jn] show ?thesis by blast
      next
        case False
        with a jn have "?sm j = Some x" "?sm k = Some x" by (simp_all add: sm')
        then show ?thesis by (rule inj2)
      qed
    qed
  next
    fix j k x
    assume a: "accumulatedFirstMoment s' j = Some x"
    show "accumulatedSecondMoment s' k \<noteq> Some x"
    proof
      assume b: "accumulatedSecondMoment s' k = Some x"
      show False
      proof (cases "j = n")
        case jn: True
        with a have x: "x = m1" by (simp add: fm')
        show ?thesis
        proof (cases "k = n")
          case True
          with b have "x = m2" by (simp add: sm')
          with x d show ?thesis by simp
        next
          case False
          with b have "?sm k = Some x" by (simp add: sm')
          with s_other [OF False] x show ?thesis by blast
        qed
      next
        case jn: False
        with a have fj: "?fm j = Some x" by (simp add: fm')
        show ?thesis
        proof (cases "k = n")
          case True
          with b have "x = m2" by (simp add: sm')
          with f_other [OF jn fj] show ?thesis by blast
        next
          case False
          with b have "?sm k = Some x" by (simp add: sm')
          with disj [OF fj, of k] show ?thesis by simp
        qed
      qed
    qed
  qed
  show "\<forall>k. parameter (s, eng) k \<longrightarrow> parameter (s', eng') k"
  proof (intro allI impI)
    fix k assume pk: "parameter (s, eng) k"
    then have rk: "?r k \<noteq> None" and
      k1: "\<And>j. ?fm j \<noteq> Some k" and k2: "\<And>j. ?sm j \<noteq> Some k"
      unfolding parameter_def fst_conv snd_conv by blast+
    from p_other [OF pk] have km: "k \<noteq> m1" "k \<noteq> m2" by simp_all
    show "parameter (s', eng') k"
      unfolding parameter_def fst_conv snd_conv
    proof (intro conjI allI)
      show "registeredVariables eng' k \<noteq> None" using rk by (rule regs)
    next
      fix j
      show "accumulatedFirstMoment s' j \<noteq> Some k"
        using k1 [of j] km by (cases "j = n") (simp_all add: fm')
    next
      fix j
      show "accumulatedSecondMoment s' j \<noteq> Some k"
        using k2 [of j] km by (cases "j = n") (simp_all add: sm')
    qed
  qed
qed

subsection \<open>The loop over the gradient map\<close>

lemma apply_loop_Cons_eq_Inr:
  "apply_loop ((n, g) # gs) st = Inr st' \<longleftrightarrow>
     (\<exists>st1. update_variable n g st = Inr st1 \<and> apply_loop gs st1 = Inr st')"
  by (simp add: ebind_eq_Inr)

lemma apply_loop_no_moments:
  "apply_loop gs st = Inr st' \<Longrightarrow> no_moments (fst st') = no_moments (fst st)"
proof (induction gs arbitrary: st)
  case Nil
  then show ?case by simp
next
  case (Cons x gs)
  obtain n g where x: "x = (n, g)" by (cases x)
  from Cons.prems obtain st1 where
    "update_variable n g st = Inr st1" "apply_loop gs st1 = Inr st'"
    by (auto simp: x ebind_eq_Inr)
  then show ?case
    using Cons.IH [of st1] update_variable_no_moments [of n g st st1] by simp
qed

lemma apply_loop_append:
  "apply_loop (xs @ ys) st = ebind (apply_loop xs st) (apply_loop ys)"
proof (induction xs arbitrary: st)
  case Nil
  then show ?case by simp
next
  case (Cons x xs)
  obtain n g where x: "x = (n, g)" by (cases x)
  show ?case
    by (cases "update_variable n g st") (simp_all add: x Cons.IH)
qed

text \<open>The facts of one update, for states given as pairs or not.\<close>

lemma update_variable_step:
  assumes wf: "well_formed st" and par: "parameter st n"
    and upd: "update_variable n g st = Inr st'"
  shows "\<exists>a b v'. entry_update (fst st) g (entry st n) = Inr (a, b, v') \<and>
           entry st' n = (Some a, Some b, Some v')"
    and "\<And>k. k \<noteq> n \<Longrightarrow> firstMoment_of st' k = firstMoment_of st k"
    and "\<And>k. k \<noteq> n \<Longrightarrow> secondMoment_of st' k = secondMoment_of st k"
    and "\<And>k. k \<noteq> n \<Longrightarrow> parameter st k \<Longrightarrow>
           registeredVariables (snd st') k = registeredVariables (snd st) k"
    and "well_formed st'"
    and "\<And>k. parameter st k \<Longrightarrow> parameter st' k"
    and "\<And>k. k \<noteq> n \<Longrightarrow> accumulatedFirstMoment (fst st') k = accumulatedFirstMoment (fst st) k"
    and "\<And>k. k \<noteq> n \<Longrightarrow> accumulatedSecondMoment (fst st') k = accumulatedSecondMoment (fst st) k"
    and "\<And>x. registeredVariables (snd st) x \<noteq> None \<Longrightarrow> registeredVariables (snd st') x \<noteq> None"
proof -
  obtain s eng s' eng' where st: "st = (s, eng)" "st' = (s', eng')"
    by (cases st, cases st') auto
  note f = update_variable_entry [OF wf [unfolded st] par [unfolded st] upd [unfolded st]]
  from f(1) show "\<exists>a b v'. entry_update (fst st) g (entry st n) = Inr (a, b, v') \<and>
           entry st' n = (Some a, Some b, Some v')"
    unfolding st fst_conv .
  from f(4) show "well_formed st'" unfolding st .
  {
    fix k assume k: "k \<noteq> n"
    from f(2) [rule_format, OF k] show "firstMoment_of st' k = firstMoment_of st k"
      unfolding st by (rule conjunct1)
    from f(2) [rule_format, OF k] show "secondMoment_of st' k = secondMoment_of st k"
      unfolding st by (rule conjunct2)
    from f(6) [rule_format, OF k]
    show "accumulatedFirstMoment (fst st') k = accumulatedFirstMoment (fst st) k"
      unfolding st fst_conv by (rule conjunct1)
    from f(6) [rule_format, OF k]
    show "accumulatedSecondMoment (fst st') k = accumulatedSecondMoment (fst st) k"
      unfolding st fst_conv by (rule conjunct2)
    assume p: "parameter st k"
    from f(3) [rule_format, of k] k p
    show "registeredVariables (snd st') k = registeredVariables (snd st) k"
      unfolding st snd_conv by simp
  }
  {
    fix k assume p: "parameter st k"
    from f(5) [rule_format, OF p [unfolded st]] show "parameter st' k" unfolding st .
  }
  {
    fix x assume "registeredVariables (snd st) x \<noteq> None"
    with f(7) show "registeredVariables (snd st') x \<noteq> None"
      unfolding st snd_conv by blast
  }
qed

lemma update_variable_other_entry:
  assumes "well_formed st" "parameter st n" "update_variable n g st = Inr st'"
    "k \<noteq> n" "parameter st k"
  shows "entry st' k = entry st k"
  using update_variable_step(2,3,4) [OF assms(1,2,3) assms(4)] assms(5)
  by (simp add: entry_def)

text \<open>The loop over parameters keeps the moment maps well formed and the parameters
  parameters, and leaves what is held for the names outside the map.\<close>

lemma apply_loop_parameters:
  assumes "apply_loop gs st = Inr st'" "well_formed st"
    "\<forall>k \<in> fst ` set gs. parameter st k"
  shows "well_formed st'"
    and "\<And>k. parameter st k \<Longrightarrow> parameter st' k"
    and "\<And>k. k \<notin> fst ` set gs \<Longrightarrow> firstMoment_of st' k = firstMoment_of st k"
    and "\<And>k. k \<notin> fst ` set gs \<Longrightarrow> secondMoment_of st' k = secondMoment_of st k"
    and "\<And>k. k \<notin> fst ` set gs \<Longrightarrow> parameter st k \<Longrightarrow>
           registeredVariables (snd st') k = registeredVariables (snd st) k"
    and "\<And>k. k \<notin> fst ` set gs \<Longrightarrow>
           accumulatedFirstMoment (fst st') k = accumulatedFirstMoment (fst st) k"
    and "\<And>k. k \<notin> fst ` set gs \<Longrightarrow>
           accumulatedSecondMoment (fst st') k = accumulatedSecondMoment (fst st) k"
    and "\<And>x. registeredVariables (snd st) x \<noteq> None \<Longrightarrow> registeredVariables (snd st') x \<noteq> None"
  using assms
proof (induction gs arbitrary: st)
  case Nil
  {
    case 1 then show ?case by simp
  next
    case 2 then show ?case by simp
  next
    case 3 then show ?case by simp
  next
    case 4 then show ?case by simp
  next
    case 5 then show ?case by simp
  next
    case 6 then show ?case by simp
  next
    case 7 then show ?case by simp
  next
    case 8 then show ?case by simp
  }
next
  case (Cons x gs)
  {
    case 1
    obtain n g where x: "x = (n, g)" by (cases x)
    from 1(1) obtain st1 where
      upd: "update_variable n g st = Inr st1" and rest: "apply_loop gs st1 = Inr st'"
      by (auto simp: x ebind_eq_Inr)
    from 1(3) x have pn: "parameter st n" by simp
    note u = update_variable_step [OF 1(2) pn upd]
    have p1: "\<forall>k \<in> fst ` set gs. parameter st1 k"
      using 1(3) u(6) by auto
    from Cons.IH(1) [OF rest u(5) p1] show ?case .
  next
    case (2 k)
    obtain n g where x: "x = (n, g)" by (cases x)
    from 2(2) obtain st1 where
      upd: "update_variable n g st = Inr st1" and rest: "apply_loop gs st1 = Inr st'"
      by (auto simp: x ebind_eq_Inr)
    from 2(4) x have pn: "parameter st n" by simp
    note u = update_variable_step [OF 2(3) pn upd]
    have p1: "\<forall>k \<in> fst ` set gs. parameter st1 k"
      using 2(4) u(6) by auto
    from Cons.IH(2) [OF u(6) [OF 2(1)] rest u(5) p1] show ?case .
  next
    case (3 k)
    obtain n g where x: "x = (n, g)" by (cases x)
    from 3(2) obtain st1 where
      upd: "update_variable n g st = Inr st1" and rest: "apply_loop gs st1 = Inr st'"
      by (auto simp: x ebind_eq_Inr)
    from 3(4) x have pn: "parameter st n" by simp
    note u = update_variable_step [OF 3(3) pn upd]
    have p1: "\<forall>k \<in> fst ` set gs. parameter st1 k"
      using 3(4) u(6) by auto
    from 3(1) x have k: "k \<noteq> n" "k \<notin> fst ` set gs" by auto
    from Cons.IH(3) [OF k(2) rest u(5) p1] u(2) [OF k(1)] show ?case by simp
  next
    case (4 k)
    obtain n g where x: "x = (n, g)" by (cases x)
    from 4(2) obtain st1 where
      upd: "update_variable n g st = Inr st1" and rest: "apply_loop gs st1 = Inr st'"
      by (auto simp: x ebind_eq_Inr)
    from 4(4) x have pn: "parameter st n" by simp
    note u = update_variable_step [OF 4(3) pn upd]
    have p1: "\<forall>k \<in> fst ` set gs. parameter st1 k"
      using 4(4) u(6) by auto
    from 4(1) x have k: "k \<noteq> n" "k \<notin> fst ` set gs" by auto
    from Cons.IH(4) [OF k(2) rest u(5) p1] u(3) [OF k(1)] show ?case by simp
  next
    case (5 k)
    obtain n g where x: "x = (n, g)" by (cases x)
    from 5(3) obtain st1 where
      upd: "update_variable n g st = Inr st1" and rest: "apply_loop gs st1 = Inr st'"
      by (auto simp: x ebind_eq_Inr)
    from 5(5) x have pn: "parameter st n" by simp
    note u = update_variable_step [OF 5(4) pn upd]
    have p1: "\<forall>k \<in> fst ` set gs. parameter st1 k"
      using 5(5) u(6) by auto
    from 5(1) x have k: "k \<noteq> n" "k \<notin> fst ` set gs" by auto
    from Cons.IH(5) [OF k(2) u(6) [OF 5(2)] rest u(5) p1] u(4) [OF k(1) 5(2)]
    show ?case by simp
  next
    case (6 k)
    obtain n g where x: "x = (n, g)" by (cases x)
    from 6(2) obtain st1 where
      upd: "update_variable n g st = Inr st1" and rest: "apply_loop gs st1 = Inr st'"
      by (auto simp: x ebind_eq_Inr)
    from 6(4) x have pn: "parameter st n" by simp
    note u = update_variable_step [OF 6(3) pn upd]
    have p1: "\<forall>k \<in> fst ` set gs. parameter st1 k"
      using 6(4) u(6) by auto
    from 6(1) x have k: "k \<noteq> n" "k \<notin> fst ` set gs" by auto
    from Cons.IH(6) [OF k(2) rest u(5) p1] u(7) [OF k(1)] show ?case by simp
  next
    case (7 k)
    obtain n g where x: "x = (n, g)" by (cases x)
    from 7(2) obtain st1 where
      upd: "update_variable n g st = Inr st1" and rest: "apply_loop gs st1 = Inr st'"
      by (auto simp: x ebind_eq_Inr)
    from 7(4) x have pn: "parameter st n" by simp
    note u = update_variable_step [OF 7(3) pn upd]
    have p1: "\<forall>k \<in> fst ` set gs. parameter st1 k"
      using 7(4) u(6) by auto
    from 7(1) x have k: "k \<noteq> n" "k \<notin> fst ` set gs" by auto
    from Cons.IH(7) [OF k(2) rest u(5) p1] u(8) [OF k(1)] show ?case by simp
  next
    case (8 y)
    obtain n g where x: "x = (n, g)" by (cases x)
    from 8(2) obtain st1 where
      upd: "update_variable n g st = Inr st1" and rest: "apply_loop gs st1 = Inr st'"
      by (auto simp: x ebind_eq_Inr)
    from 8(4) x have pn: "parameter st n" by simp
    note u = update_variable_step [OF 8(3) pn upd]
    have p1: "\<forall>k \<in> fst ` set gs. parameter st1 k"
      using 8(4) u(6) by auto
    from Cons.IH(8) [OF u(9) [OF 8(1)] rest u(5) p1] show ?case .
  }
qed

text \<open>What is held for a name of the map after the loop is what \<open>entry_update\<close> computes
  from what was held for it before the loop.\<close>

lemma apply_loop_isolated:
  assumes "apply_loop gs st = Inr st'" "well_formed st"
    "\<forall>k \<in> fst ` set gs. parameter st k"
    "distinct (map fst gs)" "(n, g) \<in> set gs"
  shows "\<exists>a b v'. entry_update (fst st) g (entry st n) = Inr (a, b, v') \<and>
           entry st' n = (Some a, Some b, Some v')"
  using assms
proof (induction gs arbitrary: st)
  case Nil
  then show ?case by simp
next
  case (Cons x gs)
  obtain m h where x: "x = (m, h)" by (cases x)
  from Cons.prems(1) obtain st1 where
    upd: "update_variable m h st = Inr st1" and rest: "apply_loop gs st1 = Inr st'"
    by (auto simp: x ebind_eq_Inr)
  from Cons.prems(3) x have pm: "parameter st m" by simp
  note u = update_variable_step [OF Cons.prems(2) pm upd]
  have p1: "\<forall>k \<in> fst ` set gs. parameter st1 k"
    using Cons.prems(3) u(6) by auto
  from Cons.prems(4) x have dist: "m \<notin> fst ` set gs" "distinct (map fst gs)" by auto
  show ?case
  proof (cases "(n, g) = (m, h)")
    case True
    then have e: "n = m" "g = h" by simp_all
    from u(1) obtain a b v' where
      eu: "entry_update (fst st) h (entry st m) = Inr (a, b, v')" and
      ent: "entry st1 m = (Some a, Some b, Some v')" by blast
    note l = apply_loop_parameters [OF rest u(5) p1]
    have "entry st' m = entry st1 m"
      using l(3) [OF dist(1)] l(4) [OF dist(1)] l(5) [OF dist(1) u(6) [OF pm]]
      by (simp add: entry_def)
    with eu ent show ?thesis unfolding e by simp
  next
    case False
    with Cons.prems(5) x have mem: "(n, g) \<in> set gs" by auto
    with dist(1) have ne: "n \<noteq> m" by force
    from mem have "n \<in> fst ` set (x # gs)" by force
    with Cons.prems(3) have pn: "parameter st n" by blast
    from Cons.IH [OF rest u(5) p1 dist(2) mem] obtain a b v' where
      eu: "entry_update (fst st1) g (entry st1 n) = Inr (a, b, v')" and
      ent: "entry st' n = (Some a, Some b, Some v')" by blast
    have e1: "entry st1 n = entry st n"
      using update_variable_other_entry [OF Cons.prems(2) pm upd ne pn] .
    have "params (fst st1) = params (fst st)"
      using update_variable_no_moments [OF upd] by (rule no_moments_params)
    from entry_update_params [OF this, of g "entry st n"] eu
    have "entry_update (fst st) g (entry st n) = Inr (a, b, v')"
      unfolding e1 by simp
    with ent show ?thesis by blast
  qed
qed

subsection \<open>The formulas of an update\<close>

lemma moment_or_zeros_Some:
  assumes "moment_or_zeros m (Some v) = Inr t" "shape t = shape v" "wf_tensor v"
    "\<forall>x. m = Some x \<longrightarrow> wf_tensor x"
  shows "length (vals t) = length (vals v)"
    and "i < length (vals v) \<Longrightarrow> vals t ! i = moment_val m i"
  using assms
  by (auto simp: moment_or_zeros_def moment_val_def wf_tensor_def split: option.splits)

lemma entry_update_eq_Inr:
  "entry_update s g (fm, sm, val) = Inr r \<longleftrightarrow>
     (\<exists>v fmc smc. val = Some v \<and> moment_or_zeros fm (Some v) = Inr fmc \<and>
        moment_or_zeros sm (Some v) = Inr smc \<and> closure_values s fmc smc g v = Inr r)"
  by (cases val) (auto simp: entry_update_def ebind_eq_Inr)

lemma entry_update_formula:
  assumes upd: "entry_update s g (fm, sm, Some v) = Inr (nf, ns, v')"
    and wf: "wf_tensor g" "wf_tensor v"
      "\<forall>m. fm = Some m \<longrightarrow> wf_tensor m" "\<forall>m. sm = Some m \<longrightarrow> wf_tensor m"
  shows "shape g = shape v \<and>
      shape nf = shape v \<and> shape ns = shape v \<and> shape v' = shape v \<and>
      wf_tensor nf \<and> wf_tensor ns \<and> wf_tensor v' \<and>
      (\<forall>i < length (vals v).
         vals nf ! i = beta1 s * moment_val fm i + (one s - beta1 s) * vals g ! i \<and>
         vals ns ! i = beta2 s * moment_val sm i + (one s - beta2 s) * (vals g ! i * vals g ! i) \<and>
         vals v' ! i = c s * ((vals nf ! i / (one s - accBeta1 s))
                          / (eps s + sqrt (vals ns ! i / (one s - accBeta2 s))))
                        + vals v ! i)"
proof -
  from upd obtain fmc smc where
    fmc: "moment_or_zeros fm (Some v) = Inr fmc" and
    smc: "moment_or_zeros sm (Some v) = Inr smc" and
    cv: "closure_values s fmc smc g v = Inr (nf, ns, v')"
    unfolding entry_update_eq_Inr by blast
  from cv obtain q where
    sh: "shape fmc = shape g" "shape smc = shape g" "shape v = shape g" and
    a: "addT (mulS (beta1 s) fmc) (mulS (one s - beta1 s) g) = Inr nf" and
    b: "addT (mulS (beta2 s) smc) (mulS (one s - beta2 s) (squareT g)) = Inr ns" and
    q: "divT (divS nf (one s - accBeta1 s))
          (addS (eps s) (sqrtT (divS ns (one s - accBeta2 s)))) = Inr q" and
    nv: "addT (mulS (c s) q) v = Inr v'"
    unfolding closure_values_eq_Inr by blast
  have len: "length (vals g) = length (vals v)"
    using wf sh by (simp add: wf_tensor_def)
  have lfm: "length (vals fmc) = length (vals v)"
    and lsm: "length (vals smc) = length (vals v)"
    using moment_or_zeros_Some(1)[OF fmc _ wf(2) wf(3)]
      moment_or_zeros_Some(1)[OF smc _ wf(2) wf(4)] sh by simp_all
  have nfm: "\<And>i. i < length (vals v) \<Longrightarrow> vals fmc ! i = moment_val fm i"
    and nsm: "\<And>i. i < length (vals v) \<Longrightarrow> vals smc ! i = moment_val sm i"
    using moment_or_zeros_Some(2)[OF fmc _ wf(2) wf(3)]
      moment_or_zeros_Some(2)[OF smc _ wf(2) wf(4)] sh by simp_all
  have la: "length (vals nf) = length (vals v)" "shape nf = shape v"
    and lb: "length (vals ns) = length (vals v)" "shape ns = shape v"
    using a b lfm lsm len sh by (auto simp: addT_eq_Inr)
  have lq: "length (vals q) = length (vals v)" "shape q = shape v"
    using q la lb by (auto simp: divT_eq_Inr)
  have lv': "length (vals v') = length (vals v)" "shape v' = shape v"
    using nv lq by (auto simp: addT_eq_Inr)
  have ea: "\<And>i. i < length (vals v) \<Longrightarrow>
      vals nf ! i = beta1 s * moment_val fm i + (one s - beta1 s) * vals g ! i"
    using a lfm len nfm by (auto simp: addT_eq_Inr)
  have eb: "\<And>i. i < length (vals v) \<Longrightarrow>
      vals ns ! i = beta2 s * moment_val sm i + (one s - beta2 s) * (vals g ! i * vals g ! i)"
    using b lsm len nsm by (auto simp: addT_eq_Inr)
  have eq: "\<And>i. i < length (vals v) \<Longrightarrow>
      vals q ! i = (vals nf ! i / (one s - accBeta1 s))
                     / (eps s + sqrt (vals ns ! i / (one s - accBeta2 s)))"
    using q la lb by (auto simp: divT_eq_Inr)
  have ev: "\<And>i. i < length (vals v) \<Longrightarrow> vals v' ! i = c s * vals q ! i + vals v ! i"
    using nv lq by (auto simp: addT_eq_Inr)
  have wfs: "wf_tensor nf" "wf_tensor ns" "wf_tensor v'"
    using la lb lv' wf(2) by (simp_all add: wf_tensor_def)
  show ?thesis
    using sh la lb lv' ea eb eq ev wfs by simp
qed

subsection \<open>Calls and sequences of calls\<close>

lemma applyGradients_eq_Inr:
  "applyGradients gs st = Inr st' \<longleftrightarrow>
     (\<exists>s1 eng1. apply_loop gs st = Inr (s1, eng1) \<and>
        st' = (s1\<lparr>accBeta1 := accBeta1 s1 * beta1 s1, accBeta2 := accBeta2 s1 * beta2 s1\<rparr>, eng1))"
  by (auto simp: applyGradients_def ebind_eq_Inr)

text \<open>The advance of the accumulators changes nothing that is held for a name.\<close>

lemma advance_views:
  "firstMoment_of (s\<lparr>accBeta1 := x, accBeta2 := y\<rparr>, eng) = firstMoment_of (s, eng)"
  "secondMoment_of (s\<lparr>accBeta1 := x, accBeta2 := y\<rparr>, eng) = secondMoment_of (s, eng)"
  "entry (s\<lparr>accBeta1 := x, accBeta2 := y\<rparr>, eng) = entry (s, eng)"
  "well_formed (s\<lparr>accBeta1 := x, accBeta2 := y\<rparr>, eng) = well_formed (s, eng)"
  "parameter (s\<lparr>accBeta1 := x, accBeta2 := y\<rparr>, eng) = parameter (s, eng)"
  by (simp_all add: fun_eq_iff firstMoment_of_def secondMoment_of_def entry_def
      well_formed_def parameter_def split: option.splits)

lemma applyGradients_loop:
  assumes "applyGradients gs st = Inr st'"
  shows "\<exists>st1. apply_loop gs st = Inr st1 \<and> snd st' = snd st1 \<and>
      accumulatedFirstMoment (fst st') = accumulatedFirstMoment (fst st1) \<and>
      accumulatedSecondMoment (fst st') = accumulatedSecondMoment (fst st1) \<and>
      firstMoment_of st' = firstMoment_of st1 \<and> secondMoment_of st' = secondMoment_of st1 \<and>
      entry st' = entry st1 \<and> well_formed st' = well_formed st1 \<and>
      parameter st' = parameter st1"
  using assms by (auto simp: applyGradients_eq_Inr advance_views)

lemma applyGradients_scalars:
  assumes "applyGradients gs (s, eng) = Inr (s', eng')"
  shows "accBeta1 s' = accBeta1 s * beta1 s" "accBeta2 s' = accBeta2 s * beta2 s"
    "beta1 s' = beta1 s" "beta2 s' = beta2 s" "eps s' = eps s" "one s' = one s" "c s' = c s"
    "learningRate s' = learningRate s"
proof -
  from assms obtain s1 eng1 where
    loop: "apply_loop gs (s, eng) = Inr (s1, eng1)" and
    s': "s' = s1\<lparr>accBeta1 := accBeta1 s1 * beta1 s1, accBeta2 := accBeta2 s1 * beta2 s1\<rparr>"
    by (auto simp: applyGradients_eq_Inr)
  from apply_loop_no_moments [OF loop] have nm: "no_moments s1 = no_moments s" by simp
  show "accBeta1 s' = accBeta1 s * beta1 s" "accBeta2 s' = accBeta2 s * beta2 s"
    "beta1 s' = beta1 s" "beta2 s' = beta2 s" "eps s' = eps s" "one s' = one s" "c s' = c s"
    "learningRate s' = learningRate s"
    using no_moments_fields [OF nm] by (simp_all add: s')
qed

lemma run_accumulators:
  "run gss (s, eng) = Inr (s', eng') \<Longrightarrow>
     accBeta1 s' = accBeta1 s * beta1 s ^ length gss \<and>
     accBeta2 s' = accBeta2 s * beta2 s ^ length gss \<and>
     beta1 s' = beta1 s \<and> beta2 s' = beta2 s \<and> eps s' = eps s \<and> one s' = one s \<and>
     c s' = c s \<and> learningRate s' = learningRate s"
proof (induction gss arbitrary: s eng)
  case Nil
  then show ?case by simp
next
  case (Cons gs gss)
  from Cons.prems obtain s1 eng1 where
    call: "applyGradients gs (s, eng) = Inr (s1, eng1)" and
    rest: "run gss (s1, eng1) = Inr (s', eng')"
    by (auto simp: ebind_eq_Inr)
  from Cons.IH [OF rest] applyGradients_scalars [OF call]
  show ?case by (simp add: mult.assoc)
qed


lemma applyGradients_isolated:
  assumes "applyGradients gs st = Inr st'" "well_formed st"
    "\<forall>k \<in> fst ` set gs. parameter st k"
    "distinct (map fst gs)" "(n, g) \<in> set gs"
  shows "\<exists>a b v'. entry_update (fst st) g (entry st n) = Inr (a, b, v') \<and>
           entry st' n = (Some a, Some b, Some v')"
proof -
  from applyGradients_loop [OF assms(1)] obtain st1 where
    loop: "apply_loop gs st = Inr st1" and same: "entry st' = entry st1"
    by blast
  from apply_loop_isolated [OF loop assms(2-5)] show ?thesis unfolding same .
qed



text \<open>A fresh optimizer has no moment variable: its maps are well formed and every
  registered name is a parameter.\<close>

lemma constructor_well_formed: "well_formed (constructor lr b1 b2 e, eng)"
  by (simp add: well_formed_def constructor_def)

lemma constructor_parameter:
  "parameter (constructor lr b1 b2 e, eng) k \<longleftrightarrow> registeredVariables eng k \<noteq> None"
  by (simp add: parameter_def constructor_def)

subsection \<open>The names that the counter gives\<close>

lemma digit_inj:
  assumes "a < 10" "b < 10" "digit a = digit b"
  shows "a = b"
proof -
  have d: "distinct ''0123456789''" by simp
  have l: "length ''0123456789'' = 10" by simp
  from assms(3) have "''0123456789'' ! a = ''0123456789'' ! b" by (simp only: digit_def)
  with nth_eq_iff_index_eq [OF d, of a b] assms(1,2) l show ?thesis by simp
qed

lemma toString_nonempty: "toString n \<noteq> []"
  by (subst toString.simps) simp

lemma toString_inj: "toString a = toString b \<Longrightarrow> a = b"
proof (induction a arbitrary: b rule: toString.induct)
  case (1 a)
  show ?case
  proof (cases "a < 10")
    case a: True
    show ?thesis
    proof (cases "b < 10")
      case True
      from 1(2) a True have "digit a = digit b"
        by (simp add: toString.simps [of a] toString.simps [of b])
      with a True show ?thesis by (rule digit_inj)
    next
      case False
      from 1(2) a False have "[digit a] = toString (b div 10) @ [digit (b mod 10)]"
        by (simp add: toString.simps [of a] toString.simps [of b])
      then have "toString (b div 10) = []" by simp
      with toString_nonempty show ?thesis by blast
    qed
  next
    case a: False
    show ?thesis
    proof (cases "b < 10")
      case True
      from 1(2) a True have "toString (a div 10) @ [digit (a mod 10)] = [digit b]"
        by (simp add: toString.simps [of a] toString.simps [of b])
      then have "toString (a div 10) = []" by simp
      with toString_nonempty show ?thesis by blast
    next
      case False
      from 1(2) a False have
        "toString (a div 10) @ [digit (a mod 10)] = toString (b div 10) @ [digit (b mod 10)]"
        by (simp add: toString.simps [of a] toString.simps [of b])
      then have e: "toString (a div 10) = toString (b div 10)"
        "digit (a mod 10) = digit (b mod 10)" by simp_all
      from 1(1) [OF a e(1)] have d: "a div 10 = b div 10" .
      have "a mod 10 = b mod 10" by (rule digit_inj [OF _ _ e(2)]) simp_all
      with d show ?thesis by (metis div_mult_mod_eq)
    qed
  qed
qed

lemma toString_eq_iff [simp]: "toString a = toString b \<longleftrightarrow> a = b"
  using toString_inj by blast

subsection \<open>The two moment variables of a parameter\<close>

lemma moment_variables_facts:
  assumes wf: "well_formed (s, eng)" and par: "parameter (s, eng) n"
    and mv1: "moment_variable (accumulatedFirstMoment s) n eng = Inr (fm', m1, eng1)"
    and mv2: "moment_variable (accumulatedSecondMoment s) n eng1 = Inr (sm', m2, eng2)"
  shows "m1 \<noteq> m2" "m1 \<noteq> n" "m2 \<noteq> n"
    and "\<exists>v fmc smc. registeredVariables eng n = Some v \<and>
           registeredVariables eng2 m1 = Some fmc \<and> registeredVariables eng2 m2 = Some smc \<and>
           registeredVariables eng2 n = Some v \<and>
           moment_or_zeros (firstMoment_of (s, eng) n) (Some v) = Inr fmc \<and>
           moment_or_zeros (secondMoment_of (s, eng) n) (Some v) = Inr smc"
    and "nextVarId eng2 = nextVarId eng + need s n"
    and "\<forall>x. registeredVariables eng2 x \<noteq> None \<longleftrightarrow>
           registeredVariables eng x \<noteq> None \<or> (\<exists>j < need s n. x = toString (nextVarId eng + j))"
    and "room eng (need s n)"
proof -
  from wf have
    reg1: "\<forall>k x. accumulatedFirstMoment s k = Some x \<longrightarrow> registeredVariables eng x \<noteq> None" and
    reg2: "\<forall>k x. accumulatedSecondMoment s k = Some x \<longrightarrow> registeredVariables eng x \<noteq> None" and
    disj: "\<forall>j k x. accumulatedFirstMoment s j = Some x \<longrightarrow> accumulatedSecondMoment s k \<noteq> Some x"
    unfolding well_formed_def fst_conv snd_conv by blast+
  from par obtain v where v: "registeredVariables eng n = Some v" and
    n1: "\<forall>k. accumulatedFirstMoment s k \<noteq> Some n" and
    n2: "\<forall>k. accumulatedSecondMoment s k \<noteq> Some n"
    unfolding parameter_def fst_conv snd_conv by blast
  note f1 = moment_variable_facts [OF mv1 v n1 reg1]
  from f1(5) obtain fmc where
    fmc: "registeredVariables eng1 m1 = Some fmc"
    "moment_or_zeros (case accumulatedFirstMoment s n of None \<Rightarrow> None
       | Some x \<Rightarrow> registeredVariables eng x) (Some v) = Inr fmc"
    by blast
  have reg2': "\<forall>k x. accumulatedSecondMoment s k = Some x \<longrightarrow> registeredVariables eng1 x \<noteq> None"
  proof (intro allI impI)
    fix k x assume kx: "accumulatedSecondMoment s k = Some x"
    with reg2 have r: "registeredVariables eng x \<noteq> None" by blast
    show "registeredVariables eng1 x \<noteq> None"
    proof (cases "x = m1")
      case True
      with fmc(1) show ?thesis by simp
    next
      case False
      with f1(6) r show ?thesis by simp
    qed
  qed
  note f2 = moment_variable_facts [OF mv2 f1(3) n2 reg2']
  from f2(5) obtain smc where
    smc1: "registeredVariables eng2 m2 = Some smc"
    "moment_or_zeros (case accumulatedSecondMoment s n of None \<Rightarrow> None
       | Some x \<Rightarrow> registeredVariables eng1 x) (Some v) = Inr smc"
    by blast
  show m12: "m1 \<noteq> m2"
  proof
    assume eq: "m1 = m2"
    show False
    proof (cases "accumulatedSecondMoment s n")
      case None
      with f2(4) have "registeredVariables eng1 m2 = None" by simp
      with eq fmc(1) show False by simp
    next
      case (Some x)
      with f2(4) have sm2: "accumulatedSecondMoment s n = Some m2" by simp
      with reg2 have r: "registeredVariables eng m2 \<noteq> None" by blast
      show False
      proof (cases "accumulatedFirstMoment s n")
        case None
        with f1(4) have "registeredVariables eng m1 = None" by simp
        with r eq show False by simp
      next
        case (Some y)
        with f1(4) have "accumulatedFirstMoment s n = Some m1" by simp
        with sm2 eq disj show False by blast
      qed
    qed
  qed
  show "m1 \<noteq> n" by (rule f1(2))
  show "m2 \<noteq> n" by (rule f2(2))
  have smc: "moment_or_zeros (case accumulatedSecondMoment s n of None \<Rightarrow> None
       | Some x \<Rightarrow> registeredVariables eng x) (Some v) = Inr smc"
  proof (cases "accumulatedSecondMoment s n")
    case None
    with smc1(2) show ?thesis by simp
  next
    case (Some x)
    with f2(4) have "x = m2" by simp
    with m12 f1(6) have "registeredVariables eng1 x = registeredVariables eng x" by simp
    with smc1(2) Some show ?thesis by simp
  qed
  have r1: "registeredVariables eng2 m1 = Some fmc"
    using f2(6) m12 fmc(1) by simp
  from v r1 smc1(1) f2(3) fmc(2) smc
  show "\<exists>v fmc smc. registeredVariables eng n = Some v \<and>
           registeredVariables eng2 m1 = Some fmc \<and> registeredVariables eng2 m2 = Some smc \<and>
           registeredVariables eng2 n = Some v \<and>
           moment_or_zeros (firstMoment_of (s, eng) n) (Some v) = Inr fmc \<and>
           moment_or_zeros (secondMoment_of (s, eng) n) (Some v) = Inr smc"
    unfolding firstMoment_of_def secondMoment_of_def fst_conv snd_conv by blast
  \<comment> \<open>the counter and the names registered\<close>
  let ?k = "nextVarId eng"
  have a1: "(accumulatedFirstMoment s n \<noteq> None \<and> eng1 = eng) \<or>
      (accumulatedFirstMoment s n = None \<and> m1 = toString ?k \<and> nextVarId eng1 = ?k + 1 \<and>
       registeredVariables eng m1 = None \<and>
       registeredVariables eng1 = (registeredVariables eng)(m1 \<mapsto> zerosLike v))"
  proof (cases "accumulatedFirstMoment s n")
    case None
    with f1(4) f1(8) show ?thesis by simp
  next
    case (Some x)
    with f1(7) show ?thesis by simp
  qed
  have a2: "(accumulatedSecondMoment s n \<noteq> None \<and> eng2 = eng1) \<or>
      (accumulatedSecondMoment s n = None \<and> m2 = toString (nextVarId eng1) \<and>
       nextVarId eng2 = nextVarId eng1 + 1 \<and> registeredVariables eng1 m2 = None \<and>
       registeredVariables eng2 = (registeredVariables eng1)(m2 \<mapsto> zerosLike v))"
  proof (cases "accumulatedSecondMoment s n")
    case None
    with f2(4) f2(8) show ?thesis by simp
  next
    case (Some x)
    with f2(7) show ?thesis by simp
  qed
  have lt2: "(\<exists>j<Suc (Suc 0). P j) \<longleftrightarrow> P 0 \<or> P (Suc 0)" for P :: "nat \<Rightarrow> bool"
    by (auto simp: less_Suc_eq)
  have al2: "(\<forall>j<Suc (Suc 0). P j) \<longleftrightarrow> P 0 \<and> P (Suc 0)" for P :: "nat \<Rightarrow> bool"
    by (auto simp: less_Suc_eq)
  from a1 a2 show "nextVarId eng2 = nextVarId eng + need s n"
    by (auto simp: need_def)
  from a1 a2 show "\<forall>x. registeredVariables eng2 x \<noteq> None \<longleftrightarrow>
           registeredVariables eng x \<noteq> None \<or> (\<exists>j < need s n. x = toString (nextVarId eng + j))"
    by (auto simp: need_def lt2)
  from a1 a2 show "room eng (need s n)"
    by (auto simp: need_def room_def al2 split: if_splits)
qed

subsection \<open>When an update returns\<close>

lemma moment_variable_succeeds:
  assumes "registeredVariables eng n = Some v"
    and "ms n = None \<longrightarrow> registeredVariables eng (toString (nextVarId eng)) = None"
  shows "\<exists>r. moment_variable ms n eng = Inr r"
  using assms
  by (cases "ms n") (simp_all add: moment_variable_def read_def variable_def Let_def)



lemma update_variable_succeeds:
  assumes wf: "well_formed (s, eng)" and par: "parameter (s, eng) n"
    and eu: "entry_update s g (entry (s, eng) n) = Inr r"
    and room: "room eng (need s n)"
  shows "\<exists>st'. update_variable n g (s, eng) = Inr st'"
proof -
  from par obtain v where v: "registeredVariables eng n = Some v"
    unfolding parameter_def fst_conv snd_conv by blast
  let ?k = "nextVarId eng"
  have r0: "accumulatedFirstMoment s n = None \<longrightarrow> registeredVariables eng (toString ?k) = None"
  proof
    assume "accumulatedFirstMoment s n = None"
    then have "0 < need s n" by (simp add: need_def)
    with room have "registeredVariables eng (toString (?k + 0)) = None"
      unfolding room_def by blast
    then show "registeredVariables eng (toString ?k) = None" by simp
  qed
  from moment_variable_succeeds [of eng n v "accumulatedFirstMoment s", OF v r0] obtain fm' m1 eng1 where
    mv1: "moment_variable (accumulatedFirstMoment s) n eng = Inr (fm', m1, eng1)"
    by (metis prod_cases3)
  from wf have
    reg1: "\<forall>k x. accumulatedFirstMoment s k = Some x \<longrightarrow> registeredVariables eng x \<noteq> None"
    unfolding well_formed_def fst_conv snd_conv by blast
  from par have n1: "\<forall>k. accumulatedFirstMoment s k \<noteq> Some n"
    unfolding parameter_def fst_conv snd_conv by blast
  note f1 = moment_variable_facts [OF mv1 v n1 reg1]
  have r1: "accumulatedSecondMoment s n = None \<longrightarrow>
      registeredVariables eng1 (toString (nextVarId eng1)) = None"
  proof
    assume none: "accumulatedSecondMoment s n = None"
    show "registeredVariables eng1 (toString (nextVarId eng1)) = None"
    proof (cases "accumulatedFirstMoment s n")
      case None
      with none have "1 < need s n" by (simp add: need_def)
      with room have "registeredVariables eng (toString (?k + 1)) = None"
        unfolding room_def by blast
      moreover from f1(8) None have "m1 = toString ?k" "nextVarId eng1 = ?k + 1"
        "registeredVariables eng1 = (registeredVariables eng)(m1 \<mapsto> zerosLike v)"
        by simp_all
      ultimately show ?thesis by simp
    next
      case (Some x)
      with f1(7) have e: "eng1 = eng" by simp
      from none have "0 < need s n" by (simp add: need_def)
      with room have "registeredVariables eng (toString (?k + 0)) = None"
        unfolding room_def by blast
      then show ?thesis by (simp add: e)
    qed
  qed
  from moment_variable_succeeds [of eng1 n v "accumulatedSecondMoment s", OF f1(3) r1] obtain sm' m2 eng2 where
    mv2: "moment_variable (accumulatedSecondMoment s) n eng1 = Inr (sm', m2, eng2)"
    by (metis prod_cases3)
  note m = moment_variables_facts [OF wf par mv1 mv2]
  from m(4) obtain v0 fmc smc where
    c: "registeredVariables eng n = Some v0"
    "registeredVariables eng2 m1 = Some fmc" "registeredVariables eng2 m2 = Some smc"
    "registeredVariables eng2 n = Some v0"
    "moment_or_zeros (firstMoment_of (s, eng) n) (Some v0) = Inr fmc"
    "moment_or_zeros (secondMoment_of (s, eng) n) (Some v0) = Inr smc"
    by blast
  from eu have cv: "closure_values s fmc smc g v0 = Inr r"
    unfolding entry_update_def entry_def snd_conv prod.case c(1) option.case c(5) c(6)
      ebind_Inr .
  have "tidy_update s m1 m2 g n eng2 = Inr (stored m1 m2 n eng2 r)"
    using tidy_update_distinct [OF m(1,2,3) c(2,3,4), of s g] by (simp add: cv)
  with mv1 mv2 show ?thesis
    by (simp add: update_variable_def Let_def)
qed



subsection \<open>When a loop returns\<close>








subsection \<open>The concrete run\<close>

lemma toString_digits:
  "toString 0 = ''0''" "toString 1 = ''1''" "toString (Suc 0) = ''1''" "toString 2 = ''2''"
  "toString 3 = ''3''" "toString (Suc (Suc 0)) = ''2''" "toString (Suc (Suc (Suc 0))) = ''3''"
  by (simp_all add: toString.simps digit_def)

lemma toString_small: "n < 10 \<Longrightarrow> toString n = [digit n]"
  by (simp add: toString.simps)

lemmas tensor_ops =
  zerosLike_def mulS_def addS_def divS_def squareT_def sqrtT_def addT_def divT_def

lemmas store_ops =
  update_variable_def moment_variable_def tidy_update_def read_def variable_def assign_def
  toString_digits toString_small digit_def Let_def

lemma example_update:
  "update_variable ''w'' ex_g1 (ex_opt0, ex_eng0) =
     Inr (ex_opt0\<lparr>accumulatedFirstMoment := [''w'' \<mapsto> ''0''],
              accumulatedSecondMoment := [''w'' \<mapsto> ''1'']\<rparr>, ex_eng1)"
  by (simp add: store_ops tensor_ops ex_opt0_def ex_eng0_def ex_eng1_def ex_w0_def ex_g1_def
      ex_half_def ex_mhalf_def constructor_def fun_eq_iff)

lemma example_call: "applyGradients [(''w'', ex_g1)] (ex_opt0, ex_eng0) = Inr (ex_opt1, ex_eng1)"
proof -
  have "applyGradients [(''w'', ex_g1)] (ex_opt0, ex_eng0) =
      Inr (ex_opt0\<lparr>accumulatedFirstMoment := [''w'' \<mapsto> ''0''],
               accumulatedSecondMoment := [''w'' \<mapsto> ''1''],
               accBeta1 := accBeta1 ex_opt0 * beta1 ex_opt0, accBeta2 := accBeta2 ex_opt0 * beta2 ex_opt0\<rparr>,
           ex_eng1)"
    by (simp add: applyGradients_def example_update)
  then show ?thesis by (simp add: ex_opt1_def ex_opt0_def constructor_def)
qed

lemma example_empty_call:
  "applyGradients [] (ex_opt1, ex_eng1) = Inr (ex_opt1\<lparr>accBeta1 := 1/8, accBeta2 := 1/8\<rparr>, ex_eng1)"
  by (simp add: applyGradients_def ex_opt1_def ex_opt0_def constructor_def)

section \<open>The claims\<close>

subsection \<open>The accumulators after \<open>N\<close> calls\<close>

text \<open>
  C3. After \<open>N\<close> calls of \<^verbatim>\<open>applyGradients\<close> that return, whatever their gradient maps
  (empty ones included), \<open>accBeta1\<close> is \<open>beta1 ^ (N + 1)\<close> and \<open>accBeta2\<close> is
  \<open>beta2 ^ (N + 1)\<close>: the constructor sets them to \<open>beta1\<close> and \<open>beta2\<close>, and a call
  multiplies each once.
\<close>

theorem accumulators_after_calls:
  assumes "run gss (constructor lr b1 b2 e, eng) = Inr (s', eng')"
  shows "accBeta1 s' = b1 ^ (length gss + 1) \<and> accBeta2 s' = b2 ^ (length gss + 1)"
  using run_accumulators [OF assms] by (simp add: constructor_def)

theorem accumulators_after_calls_witness:
  "run [[(''w'', ex_g1)], []] (ex_opt0, ex_eng0) = Inr (ex_opt1\<lparr>accBeta1 := 1/8, accBeta2 := 1/8\<rparr>, ex_eng1)
   \<and> accBeta1 (ex_opt1\<lparr>accBeta1 := 1/8, accBeta2 := 1/8\<rparr>) = (1/2) ^ (length [[(''w'', ex_g1)], []] + 1)
   \<and> accBeta2 (ex_opt1\<lparr>accBeta1 := 1/8, accBeta2 := 1/8\<rparr>) = (1/2) ^ (length [[(''w'', ex_g1)], []] + 1)"
proof -
  have r: "run [[(''w'', ex_g1)], []] (constructor 1 (1/2) (1/2) 1, ex_eng0)
      = Inr (ex_opt1\<lparr>accBeta1 := 1/8, accBeta2 := 1/8\<rparr>, ex_eng1)"
    using example_call example_empty_call by (simp add: ex_opt0_def)
  from accumulators_after_calls [OF r] r show ?thesis by (simp add: ex_opt0_def)
qed

subsection \<open>The update of one parameter\<close>

lemma example_well_formed:
  "well_formed (ex_opt0, eng)" "parameter (ex_opt0, ex_eng0) ''w''"
  "parameter (ex_opt0, ex_eng0u) ''w''" "parameter (ex_opt0, ex_eng0u) ''u''"
  by (simp_all add: well_formed_def parameter_def ex_opt0_def constructor_def ex_eng0_def
      ex_eng0u_def)

text \<open>
  C1. Take a call of \<^verbatim>\<open>applyGradients\<close> that returns, in a state whose moment maps are
  well formed, on a gradient map whose names are parameters: registered names that are not
  names of moment variables. For every name \<open>n\<close> of the map, with gradient \<open>g\<close> and value
  \<open>v\<close> before the call, elementwise: the new first moment is
  \<open>beta1 * firstMoment[n] + (1 - beta1) * g\<close>, the new second moment is
  \<open>beta2 * secondMoment[n] + (1 - beta2) * g\<^sup>2\<close>, both are stored in the moment variables
  of the name, and the variable is assigned \<open>v + (- learningRate) * (newFirst /
  (1 - accBeta1)) / (epsilon + sqrt (newSecond / (1 - accBeta2)))\<close> with the accumulators
  as they were before the call. The scalars \<open>one\<close> and \<open>c\<close> are as the constructor sets
  them.
\<close>

theorem applyGradients_update_formula:
  assumes call: "applyGradients gs (s, eng) = Inr (s', eng')"
    and dist: "distinct (map fst gs)"
    and mem: "(n, g) \<in> set gs"
    and v: "registeredVariables eng n = Some v"
    and scalars: "one s = 1" "c s = - learningRate s"
    and wf: "wf_tensor g" "wf_tensor v"
      "\<forall>m. firstMoment_of (s, eng) n = Some m \<longrightarrow> wf_tensor m"
      "\<forall>m. secondMoment_of (s, eng) n = Some m \<longrightarrow> wf_tensor m"
    and pars: "well_formed (s, eng)" "\<forall>k \<in> fst ` set gs. parameter (s, eng) k"
  shows "\<exists>newFirst newSecond v_new.
      firstMoment_of (s', eng') n = Some newFirst \<and>
      secondMoment_of (s', eng') n = Some newSecond \<and>
      registeredVariables eng' n = Some v_new \<and>
      shape newFirst = shape v \<and> shape newSecond = shape v \<and> shape v_new = shape v \<and>
      wf_tensor newFirst \<and> wf_tensor newSecond \<and> wf_tensor v_new \<and>
      (\<forall>i < length (vals v).
         vals newFirst ! i =
           beta1 s * moment_val (firstMoment_of (s, eng) n) i + (1 - beta1 s) * vals g ! i \<and>
         vals newSecond ! i =
           beta2 s * moment_val (secondMoment_of (s, eng) n) i
             + (1 - beta2 s) * (vals g ! i)\<^sup>2 \<and>
         vals v_new ! i =
           vals v ! i + (- learningRate s) * ((vals newFirst ! i / (1 - accBeta1 s))
             / (eps s + sqrt (vals newSecond ! i / (1 - accBeta2 s)))))"
proof -
  from applyGradients_isolated [OF call pars dist mem] obtain nf ns v' where
    eu: "entry_update s g (entry (s, eng) n) = Inr (nf, ns, v')" and
    ent: "entry (s', eng') n = (Some nf, Some ns, Some v')"
    by auto
  from ent have same: "firstMoment_of (s', eng') n = Some nf"
    "secondMoment_of (s', eng') n = Some ns" "registeredVariables eng' n = Some v'"
    by (simp_all add: entry_def)
  from eu have eu': "entry_update s g
      (firstMoment_of (s, eng) n, secondMoment_of (s, eng) n, Some v) = Inr (nf, ns, v')"
    by (simp add: entry_def v)
  from entry_update_formula [OF eu' wf] have
    "shape nf = shape v" "shape ns = shape v" "shape v' = shape v"
    "wf_tensor nf" "wf_tensor ns" "wf_tensor v'"
    "\<forall>i < length (vals v).
         vals nf ! i = beta1 s * moment_val (firstMoment_of (s, eng) n) i
                        + (one s - beta1 s) * vals g ! i \<and>
         vals ns ! i = beta2 s * moment_val (secondMoment_of (s, eng) n) i
                        + (one s - beta2 s) * (vals g ! i * vals g ! i) \<and>
         vals v' ! i = c s * ((vals nf ! i / (one s - accBeta1 s))
                          / (eps s + sqrt (vals ns ! i / (one s - accBeta2 s))))
                        + vals v ! i"
    by blast+
  then show ?thesis
    unfolding same scalars by (simp add: power2_eq_square)
qed

theorem applyGradients_update_formula_witness:
  "applyGradients [(''w'', ex_g1)] (ex_opt0, ex_eng0) = Inr (ex_opt1, ex_eng1) \<and>
   (\<exists>newFirst newSecond v_new.
      firstMoment_of (ex_opt1, ex_eng1) ''w'' = Some newFirst \<and>
      secondMoment_of (ex_opt1, ex_eng1) ''w'' = Some newSecond \<and>
      registeredVariables ex_eng1 ''w'' = Some v_new \<and>
      vals newFirst ! 0 = 1/2 * 0 + (1 - 1/2) * 1 \<and>
      vals newSecond ! 0 = 1/2 * 0 + (1 - 1/2) * 1\<^sup>2 \<and>
      vals v_new ! 0 = 0 + (- 1) * ((vals newFirst ! 0 / (1 - 1/2))
             / (1 + sqrt (vals newSecond ! 0 / (1 - 1/2)))))"
proof -
  have h: "distinct (map fst [(''w'', ex_g1)])" "(''w'', ex_g1) \<in> set [(''w'', ex_g1)]"
    "registeredVariables ex_eng0 ''w'' = Some ex_w0" "one ex_opt0 = 1"
    "c ex_opt0 = - learningRate ex_opt0"
    "wf_tensor ex_g1" "wf_tensor ex_w0"
    "\<forall>m. firstMoment_of (ex_opt0, ex_eng0) ''w'' = Some m \<longrightarrow> wf_tensor m"
    "\<forall>m. secondMoment_of (ex_opt0, ex_eng0) ''w'' = Some m \<longrightarrow> wf_tensor m"
    "well_formed (ex_opt0, ex_eng0)"
    "\<forall>k \<in> fst ` set [(''w'', ex_g1)]. parameter (ex_opt0, ex_eng0) k"
    using example_well_formed
    by (simp_all add: ex_eng0_def ex_opt0_def constructor_def wf_tensor_def ex_g1_def
        ex_w0_def firstMoment_of_def secondMoment_of_def)
  from applyGradients_update_formula [OF example_call h] example_call
  show ?thesis
    by (simp add: ex_opt0_def constructor_def ex_w0_def moment_val_def ex_g1_def
        firstMoment_of_def secondMoment_of_def) blast
qed

lemma sqrt_9_16: "sqrt (9/16) = 3/4"
  by (rule real_sqrt_unique) (simp_all add: power2_eq_square)

lemma example_snapshot_pre:
  "apply_loop [(''u'', ex_g1)] (ex_opt2c, ex_eng0u) =
     Inr (ex_opt2c\<lparr>accumulatedFirstMoment := [''u'' \<mapsto> ''0''],
              accumulatedSecondMoment := [''u'' \<mapsto> ''1'']\<rparr>, ex_eng1c)"
  by (simp add: store_ops tensor_ops ex_opt2c_def ex_opt0c_def ex_eng0u_def ex_eng1c_def
      ex_w0_def ex_g1_def ex_half_def ex_s_def ex_step_def constructor_def fun_eq_iff sqrt_9_16)

lemma example_snapshot_update:
  "update_variable ''w'' ex_g1
     (ex_opt2c\<lparr>accumulatedFirstMoment := [''u'' \<mapsto> ''0''],
              accumulatedSecondMoment := [''u'' \<mapsto> ''1'']\<rparr>, ex_eng1c) =
     Inr (ex_opt2c\<lparr>accumulatedFirstMoment := [''u'' \<mapsto> ''0'', ''w'' \<mapsto> ''2''],
              accumulatedSecondMoment := [''u'' \<mapsto> ''1'', ''w'' \<mapsto> ''3'']\<rparr>, ex_eng2c)"
  by (simp add: store_ops tensor_ops ex_opt2c_def ex_opt0c_def ex_eng1c_def ex_eng2c_def
      ex_w0_def ex_g1_def ex_half_def ex_s_def ex_step_def constructor_def fun_eq_iff sqrt_9_16)

lemma example_snapshot_call:
  "applyGradients ([(''u'', ex_g1)] @ (''w'', ex_g1) # []) (ex_opt2c, ex_eng0u) =
     Inr (ex_opt3c, ex_eng2c)"
proof -
  have "apply_loop [(''u'', ex_g1), (''w'', ex_g1)] (ex_opt2c, ex_eng0u) =
     Inr (ex_opt2c\<lparr>accumulatedFirstMoment := [''u'' \<mapsto> ''0'', ''w'' \<mapsto> ''2''],
              accumulatedSecondMoment := [''u'' \<mapsto> ''1'', ''w'' \<mapsto> ''3'']\<rparr>, ex_eng2c)"
    using example_snapshot_pre example_snapshot_update by (simp add: ebind_eq_Inr)
  then show ?thesis
    by (simp add: applyGradients_def ex_opt3c_def ex_opt2c_def ex_opt0c_def constructor_def)
qed

subsection \<open>The accumulators within a call\<close>

text \<open>
  C4. Take a call of \<^verbatim>\<open>applyGradients\<close> that returns, in a state whose moment maps are
  well formed, on a gradient map whose names are parameters. Whatever the position of a
  name in the map, its update runs in a state whose \<open>accBeta1\<close> and \<open>accBeta2\<close> are those
  the call started with, and leaves them so. The bias correction of the update divides
  the new first moment by \<open>1 - accBeta1\<close> and the new second moment by \<open>1 - accBeta2\<close>
  with the accumulators the call started with: the value \<open>v2\<close> that the update assigns is
  \<open>c * (newFirst / (one - accBeta1)) / (eps + sqrt (newSecond / (one - accBeta2))) + v1\<close>
  for the value \<open>v1\<close> before the update. The accumulators advance once, after the last
  update.
\<close>

theorem accumulator_snapshot:
  assumes call: "applyGradients (pre @ (n, g) # post) (s, eng) = Inr (s', eng')"
    and wf: "well_formed (s, eng)"
    and pars: "\<forall>k \<in> fst ` set (pre @ (n, g) # post). parameter (s, eng) k"
  shows "\<exists>s1 eng1 s2 eng2 v1 newFirst newSecond quotient v2.
      apply_loop pre (s, eng) = Inr (s1, eng1) \<and>
      accBeta1 s1 = accBeta1 s \<and> accBeta2 s1 = accBeta2 s \<and>
      update_variable n g (s1, eng1) = Inr (s2, eng2) \<and>
      accBeta1 s2 = accBeta1 s \<and> accBeta2 s2 = accBeta2 s \<and>
      registeredVariables eng1 n = Some v1 \<and>
      firstMoment_of (s2, eng2) n = Some newFirst \<and>
      secondMoment_of (s2, eng2) n = Some newSecond \<and>
      registeredVariables eng2 n = Some v2 \<and>
      divT (divS newFirst (one s - accBeta1 s))
        (addS (eps s) (sqrtT (divS newSecond (one s - accBeta2 s)))) = Inr quotient \<and>
      addT (mulS (c s) quotient) v1 = Inr v2 \<and>
      accBeta1 s' = accBeta1 s * beta1 s \<and> accBeta2 s' = accBeta2 s * beta2 s"
proof -
  from call obtain s3 eng3 where
    loop: "apply_loop (pre @ (n, g) # post) (s, eng) = Inr (s3, eng3)"
    by (auto simp: applyGradients_eq_Inr)
  then obtain st1 st2 where
    pre: "apply_loop pre (s, eng) = Inr st1" and
    upd: "update_variable n g st1 = Inr st2"
    by (auto simp: apply_loop_append ebind_eq_Inr)
  obtain s1 eng1 s2 eng2 where st: "st1 = (s1, eng1)" "st2 = (s2, eng2)"
    by (cases st1, cases st2) auto
  from apply_loop_no_moments [OF pre] have nm1: "no_moments s1 = no_moments s"
    by (simp add: st)
  from update_variable_no_moments [OF upd] nm1 have nm2: "no_moments s2 = no_moments s"
    by (simp add: st)
  from pars have ppre: "\<forall>k \<in> fst ` set pre. parameter (s, eng) k" and
    pn: "parameter (s, eng) n" by auto
  note l = apply_loop_parameters(1,2) [OF pre wf ppre]
  note u = update_variable_step(1) [OF l(1) l(2) [OF pn] upd]
  from u obtain a b v' where
    eu: "entry_update s1 g (entry (s1, eng1) n) = Inr (a, b, v')" and
    ent: "entry (s2, eng2) n = (Some a, Some b, Some v')"
    unfolding st fst_conv by blast
  from eu obtain v1 fmc smc where
    v1: "registeredVariables eng1 n = Some v1" and
    cv: "closure_values s1 fmc smc g v1 = Inr (a, b, v')"
    unfolding entry_def snd_conv entry_update_eq_Inr by blast
  from cv obtain q where
    q: "divT (divS a (one s1 - accBeta1 s1))
          (addS (eps s1) (sqrtT (divS b (one s1 - accBeta2 s1)))) = Inr q" and
    nv: "addT (mulS (c s1) q) v1 = Inr v'"
    unfolding closure_values_eq_Inr by blast
  note f1 = no_moments_fields [OF nm1] and f2 = no_moments_fields [OF nm2]
  from ent have e: "firstMoment_of (s2, eng2) n = Some a"
    "secondMoment_of (s2, eng2) n = Some b" "registeredVariables eng2 n = Some v'"
    by (simp_all add: entry_def)
  have q': "divT (divS a (one s - accBeta1 s))
          (addS (eps s) (sqrtT (divS b (one s - accBeta2 s)))) = Inr q"
    using q unfolding f1 .
  have nv': "addT (mulS (c s) q) v1 = Inr v'"
    using nv unfolding f1 .
  show ?thesis
    apply (rule exI [of _ s1], rule exI [of _ eng1], rule exI [of _ s2], rule exI [of _ eng2])
    apply (rule exI [of _ v1], rule exI [of _ a], rule exI [of _ b], rule exI [of _ q])
    apply (rule exI [of _ v'])
    apply (intro conjI)
    apply (rule pre [unfolded st])
    apply (rule f1(6))
    apply (rule f1(7))
    apply (rule upd [unfolded st])
    apply (rule f2(6))
    apply (rule f2(7))
    apply (rule v1)
    apply (rule e(1))
    apply (rule e(2))
    apply (rule e(3))
    apply (rule q')
    apply (rule nv')
    apply (rule applyGradients_scalars(1) [OF call])
    apply (rule applyGradients_scalars(2) [OF call])
    done
qed

theorem accumulator_snapshot_witness:
  "applyGradients ([(''u'', ex_g1)] @ (''w'', ex_g1) # []) (ex_opt2c, ex_eng0u)
     = Inr (ex_opt3c, ex_eng2c) \<and>
   accBeta1 ex_opt2c = 1/4 \<and> beta1 ex_opt2c = 1/2 \<and>
   accBeta2 ex_opt2c = 49/81 \<and> beta2 ex_opt2c = 7/9 \<and>
   (\<exists>s1 eng1 s2 v1 newFirst newSecond quotient v2.
      apply_loop [(''u'', ex_g1)] (ex_opt2c, ex_eng0u) = Inr (s1, eng1) \<and>
      accBeta1 s1 = accBeta1 ex_opt2c \<and> accBeta2 s1 = accBeta2 ex_opt2c \<and>
      update_variable ''w'' ex_g1 (s1, eng1) = Inr (s2, ex_eng2c) \<and>
      accBeta1 s2 = accBeta1 ex_opt2c \<and> accBeta2 s2 = accBeta2 ex_opt2c \<and>
      registeredVariables eng1 ''w'' = Some v1 \<and>
      firstMoment_of (s2, ex_eng2c) ''w'' = Some newFirst \<and>
      secondMoment_of (s2, ex_eng2c) ''w'' = Some newSecond \<and>
      registeredVariables ex_eng2c ''w'' = Some v2 \<and>
      divT (divS newFirst (one ex_opt2c - accBeta1 ex_opt2c))
        (addS (eps ex_opt2c) (sqrtT (divS newSecond (one ex_opt2c - accBeta2 ex_opt2c))))
        = Inr quotient \<and>
      addT (mulS (c ex_opt2c) quotient) v1 = Inr v2 \<and>
      v1 = ex_w0 \<and> v2 = ex_step) \<and>
   accBeta1 ex_opt3c = accBeta1 ex_opt2c * beta1 ex_opt2c \<and>
   accBeta2 ex_opt3c = accBeta2 ex_opt2c * beta2 ex_opt2c"
proof -
  have h: "well_formed (ex_opt2c, ex_eng0u)"
    "\<forall>k \<in> fst ` set ([(''u'', ex_g1)] @ (''w'', ex_g1) # []). parameter (ex_opt2c, ex_eng0u) k"
    by (simp_all add: well_formed_def parameter_def ex_opt2c_def ex_opt0c_def constructor_def
        ex_eng0u_def)
  have sc: "accBeta1 ex_opt2c = 1/4" "beta1 ex_opt2c = 1/2"
    "accBeta2 ex_opt2c = 49/81" "beta2 ex_opt2c = 7/9"
    by (simp_all add: ex_opt2c_def ex_opt0c_def constructor_def)
  from accumulator_snapshot [OF example_snapshot_call h] obtain s1 eng1 s2 eng2 v1 newFirst
    newSecond quotient v2 where
    r: "apply_loop [(''u'', ex_g1)] (ex_opt2c, ex_eng0u) = Inr (s1, eng1)"
      "accBeta1 s1 = accBeta1 ex_opt2c" "accBeta2 s1 = accBeta2 ex_opt2c"
      "update_variable ''w'' ex_g1 (s1, eng1) = Inr (s2, eng2)"
      "accBeta1 s2 = accBeta1 ex_opt2c" "accBeta2 s2 = accBeta2 ex_opt2c"
      "registeredVariables eng1 ''w'' = Some v1"
      "firstMoment_of (s2, eng2) ''w'' = Some newFirst"
      "secondMoment_of (s2, eng2) ''w'' = Some newSecond"
      "registeredVariables eng2 ''w'' = Some v2"
      "divT (divS newFirst (one ex_opt2c - accBeta1 ex_opt2c))
        (addS (eps ex_opt2c) (sqrtT (divS newSecond (one ex_opt2c - accBeta2 ex_opt2c))))
        = Inr quotient"
      "addT (mulS (c ex_opt2c) quotient) v1 = Inr v2"
      "accBeta1 ex_opt3c = accBeta1 ex_opt2c * beta1 ex_opt2c"
      "accBeta2 ex_opt3c = accBeta2 ex_opt2c * beta2 ex_opt2c"
    by blast
  from r(1) example_snapshot_pre have s1: "s1 = ex_opt2c\<lparr>accumulatedFirstMoment := [''u'' \<mapsto> ''0''],
              accumulatedSecondMoment := [''u'' \<mapsto> ''1'']\<rparr>" "eng1 = ex_eng1c"
    by simp_all
  from r(4) example_snapshot_update have eng2: "eng2 = ex_eng2c"
    unfolding s1 by simp
  from r(7) have v1: "v1 = ex_w0" by (simp add: s1 ex_eng1c_def)
  from r(10) have v2: "v2 = ex_step" by (simp add: eng2 ex_eng2c_def)
  from r v1 v2 sc example_snapshot_call show ?thesis
    unfolding eng2 by blast
qed

subsection \<open>The first call on a fresh optimizer\<close>

lemma closure_values_succeeds:
  assumes "shape fm = shape v" "shape sm = shape v" "shape g = shape v"
  shows "\<exists>r. closure_values s fm sm g v = Inr r"
  using assms by (simp add: closure_values_def addT_def divT_def)

text \<open>
  C2, as the code has it. For decay rates in the open unit interval, a positive learning
  rate and a positive epsilon, one call of \<^verbatim>\<open>applyGradients\<close> on a fresh optimizer with
  a single registered parameter of value \<open>v\<close> and a gradient \<open>g\<close> of the same shape, in a
  store with no variable under the next two names of the counter, returns; the stored
  moments are \<open>(1 - beta1) * g\<close> and \<open>(1 - beta2) * g\<^sup>2\<close>, and the new value is
  \<open>v - learningRate * (newFirst / (1 - beta1)) / (epsilon + sqrt (newSecond /
  (1 - beta2)))\<close>: the first call corrects the bias with \<open>1 - beta\<close>, not with
  \<open>1 - beta\<^sup>2\<close>.
\<close>

theorem first_call_single_parameter:
  assumes "0 < b1" "b1 < 1" "0 < b2" "b2 < 1" "0 < lr" "0 < e"
    and v: "registeredVariables eng n = Some v"
    and wf: "wf_tensor v" "wf_tensor g" and sh: "shape g = shape v"
    and fresh: "registeredVariables eng (toString (nextVarId eng)) = None"
      "registeredVariables eng (toString (nextVarId eng + 1)) = None"
  shows "\<exists>s' eng' newFirst newSecond v_new.
     applyGradients [(n, g)] (constructor lr b1 b2 e, eng) = Inr (s', eng') \<and>
     firstMoment_of (s', eng') n = Some newFirst \<and>
     secondMoment_of (s', eng') n = Some newSecond \<and>
     registeredVariables eng' n = Some v_new \<and>
     shape newFirst = shape v \<and> shape newSecond = shape v \<and> shape v_new = shape v \<and>
     wf_tensor newFirst \<and> wf_tensor newSecond \<and> wf_tensor v_new \<and>
     (\<forall>i < length (vals v).
        vals newFirst ! i = (1 - b1) * vals g ! i \<and>
        vals newSecond ! i = (1 - b2) * (vals g ! i)\<^sup>2 \<and>
        vals v_new ! i =
          vals v ! i - lr * (vals newFirst ! i / (1 - b1))
            / (e + sqrt (vals newSecond ! i / (1 - b2))))"
proof -
  let ?s = "constructor lr b1 b2 e"
  have none: "accumulatedFirstMoment ?s n = None" "accumulatedSecondMoment ?s n = None"
    by (simp_all add: constructor_def)
  have wfs: "well_formed (?s, eng)" by (rule constructor_well_formed)
  have par: "parameter (?s, eng) n" by (simp add: constructor_parameter v)
  have ent: "entry (?s, eng) n = (None, None, Some v)"
    by (simp add: entry_def firstMoment_of_def secondMoment_of_def none v)
  from closure_values_succeeds [of "zerosLike v" v "zerosLike v" g ?s] sh
  obtain r where cv: "closure_values ?s (zerosLike v) (zerosLike v) g v = Inr r" by auto
  have eu: "entry_update ?s g (entry (?s, eng) n) = Inr r"
    by (simp add: ent entry_update_def moment_or_zeros_def cv)
  have "room eng (need ?s n)"
    unfolding room_def
  proof (intro allI impI)
    fix j assume "j < need ?s n"
    then have "j = 0 \<or> j = 1" by (auto simp: need_def none)
    with fresh show "registeredVariables eng (toString (nextVarId eng + j)) = None" by auto
  qed
  from update_variable_succeeds [OF wfs par eu this] obtain s1 eng1 where
    upd: "update_variable n g (?s, eng) = Inr (s1, eng1)" by auto
  let ?s' = "s1\<lparr>accBeta1 := accBeta1 s1 * beta1 s1, accBeta2 := accBeta2 s1 * beta2 s1\<rparr>"
  have call: "applyGradients [(n, g)] (?s, eng) = Inr (?s', eng1)"
    by (simp add: applyGradients_def upd)
  from update_variable_step(1) [OF wfs par upd] eu obtain nf ns v' where
    r: "r = (nf, ns, v')" and ent1: "entry (s1, eng1) n = (Some nf, Some ns, Some v')"
    by auto
  from ent1 have same: "firstMoment_of (?s', eng1) n = Some nf"
    "secondMoment_of (?s', eng1) n = Some ns" "registeredVariables eng1 n = Some v'"
    by (simp_all add: entry_def advance_views)
  have wfm: "\<forall>m. (None :: tensor option) = Some m \<longrightarrow> wf_tensor m" by simp
  from eu have eu': "entry_update ?s g (None, None, Some v) = Inr (nf, ns, v')"
    by (simp add: ent r)
  from entry_update_formula [OF eu' wf(2,1) wfm wfm] have
    sh': "shape nf = shape v" "shape ns = shape v" "shape v' = shape v"
    "wf_tensor nf" "wf_tensor ns" "wf_tensor v'" and
    f: "\<forall>i < length (vals v).
         vals nf ! i = beta1 ?s * moment_val None i + (one ?s - beta1 ?s) * vals g ! i \<and>
         vals ns ! i = beta2 ?s * moment_val None i
                        + (one ?s - beta2 ?s) * (vals g ! i * vals g ! i) \<and>
         vals v' ! i = c ?s * ((vals nf ! i / (one ?s - accBeta1 ?s))
                          / (eps ?s + sqrt (vals ns ! i / (one ?s - accBeta2 ?s))))
                        + vals v ! i"
    by blast+
  from f have "\<forall>i < length (vals v).
        vals nf ! i = (1 - b1) * vals g ! i \<and>
        vals ns ! i = (1 - b2) * (vals g ! i)\<^sup>2 \<and>
        vals v' ! i =
          vals v ! i - lr * (vals nf ! i / (1 - b1)) / (e + sqrt (vals ns ! i / (1 - b2)))"
    by (simp add: constructor_def moment_val_def power2_eq_square)
  with call same sh' show ?thesis
    by (intro exI [of _ ?s'] exI [of _ eng1] exI [of _ nf] exI [of _ ns] exI [of _ v']) simp
qed

theorem first_call_single_parameter_witness:
  "(0::real) < 1/2 \<and> (1/2::real) < 1 \<and> (0::real) < 1 \<and>
   registeredVariables ex_eng0 ''w'' = Some ex_w0 \<and>
   wf_tensor ex_w0 \<and> wf_tensor ex_g1 \<and> shape ex_g1 = shape ex_w0 \<and>
   registeredVariables ex_eng0 (toString (nextVarId ex_eng0)) = None \<and>
   registeredVariables ex_eng0 (toString (nextVarId ex_eng0 + 1)) = None \<and>
   (\<exists>s' eng' newFirst newSecond v_new.
     applyGradients [(''w'', ex_g1)] (constructor 1 (1/2) (1/2) 1, ex_eng0) = Inr (s', eng') \<and>
     firstMoment_of (s', eng') ''w'' = Some newFirst \<and>
     secondMoment_of (s', eng') ''w'' = Some newSecond \<and>
     registeredVariables eng' ''w'' = Some v_new \<and>
     vals newFirst ! 0 = (1 - 1/2) * vals ex_g1 ! 0 \<and>
     vals newSecond ! 0 = (1 - 1/2) * (vals ex_g1 ! 0)\<^sup>2 \<and>
     vals v_new ! 0 =
       vals ex_w0 ! 0 - 1 * (vals newFirst ! 0 / (1 - 1/2))
         / (1 + sqrt (vals newSecond ! 0 / (1 - 1/2))))"
proof -
  have h: "(0::real) < 1/2" "(1/2::real) < 1" "(0::real) < 1"
    "registeredVariables ex_eng0 ''w'' = Some ex_w0"
    "wf_tensor ex_w0" "wf_tensor ex_g1" "shape ex_g1 = shape ex_w0"
    "registeredVariables ex_eng0 (toString (nextVarId ex_eng0)) = None"
    "registeredVariables ex_eng0 (toString (nextVarId ex_eng0 + 1)) = None"
    by (simp_all add: ex_eng0_def wf_tensor_def ex_w0_def ex_g1_def toString_digits)
  have len: "0 < length (vals ex_w0)" by (simp add: ex_w0_def)
  from first_call_single_parameter [of "1/2" "1/2" 1 1 ex_eng0 "''w''" ex_w0 ex_g1,
      OF h(1,2,1,2,3,3) h(4-9)] len h
  show ?thesis by blast
qed

text \<open>
  C2 as stated fails: with learning rate 1, \<open>beta1 = 1/2\<close>, \<open>beta2 = 7/9\<close>, epsilon 1,
  value 0 and gradient 1 the call assigns \<open>- 1/2\<close>, and the stated formula gives
  \<open>- 8/21\<close>.
\<close>

theorem first_call_bias_correction_counterexample:
  "applyGradients [(''w'', ex_g1)] (ex_opt0c, ex_eng0) = Inr (ex_opt1c, ex_eng1w) \<and>
   registeredVariables ex_eng1w ''w'' = Some \<lparr>shape = [1], vals = [- 1/2]\<rparr> \<and>
   (- 1/2 :: real) \<noteq>
     vals ex_w0 ! 0 - 1 * (((1 - 1/2) * vals ex_g1 ! 0) / (1 - (1/2)\<^sup>2))
       / (1 + sqrt (((1 - 7/9) * (vals ex_g1 ! 0)\<^sup>2) / (1 - (7/9)\<^sup>2)))"
proof -
  have upd: "update_variable ''w'' ex_g1 (ex_opt0c, ex_eng0) =
     Inr (ex_opt0c\<lparr>accumulatedFirstMoment := [''w'' \<mapsto> ''0''],
              accumulatedSecondMoment := [''w'' \<mapsto> ''1'']\<rparr>, ex_eng1w)"
    by (simp add: store_ops tensor_ops ex_opt0c_def ex_eng0_def ex_eng1w_def ex_w0_def
        ex_g1_def ex_half_def ex_mhalf_def ex_s_def constructor_def fun_eq_iff)
  have "applyGradients [(''w'', ex_g1)] (ex_opt0c, ex_eng0) =
      Inr (ex_opt0c\<lparr>accumulatedFirstMoment := [''w'' \<mapsto> ''0''],
               accumulatedSecondMoment := [''w'' \<mapsto> ''1''],
               accBeta1 := accBeta1 ex_opt0c * beta1 ex_opt0c,
               accBeta2 := accBeta2 ex_opt0c * beta2 ex_opt0c\<rparr>, ex_eng1w)"
    by (simp add: applyGradients_def upd)
  then have call: "applyGradients [(''w'', ex_g1)] (ex_opt0c, ex_eng0) = Inr (ex_opt1c, ex_eng1w)"
    by (simp add: ex_opt1c_def ex_opt0c_def constructor_def)
  have "(- 1/2 :: real) \<noteq>
     vals ex_w0 ! 0 - 1 * (((1 - 1/2) * vals ex_g1 ! 0) / (1 - (1/2)\<^sup>2))
       / (1 + sqrt (((1 - 7/9) * (vals ex_g1 ! 0)\<^sup>2) / (1 - (7/9)\<^sup>2)))"
    using sqrt_9_16 by (simp add: ex_w0_def ex_g1_def power2_eq_square)
  with call show ?thesis by (simp add: ex_eng1w_def ex_mhalf_def)
qed

subsection \<open>Zero gradients\<close>








subsection \<open>Divisors\<close>









subsection \<open>Determinism\<close>

lemma ebind_rel:
  assumes "rel_sum (=) R m1 m2" "\<And>x y. R x y \<Longrightarrow> rel_sum (=) Q (f x) (h y)"
  shows "rel_sum (=) Q (ebind m1 f) (ebind m2 h)"
  using assms by (cases m1; cases m2) simp_all

lemma ebind_rel_same:
  assumes "\<And>x. rel_sum (=) Q (f x) (h x)"
  shows "rel_sum (=) Q (ebind m f) (ebind m h)"
  using assms by (cases m) simp_all

lemma tidy_update_params:
  "params s1 = params s2 \<Longrightarrow> tidy_update s1 x y g z eng = tidy_update s2 x y g z eng"
  by (simp add: tidy_update_def params_def)

lemma update_variable_same_vars:
  assumes e: "eager_state s1 = eager_state s2"
  shows "rel_sum (=) same_eager (update_variable n g (s1, eng)) (update_variable n g (s2, eng))"
proof -
  from e have p: "params s1 = params s2" and
    m: "accumulatedFirstMoment s2 = accumulatedFirstMoment s1"
    "accumulatedSecondMoment s2 = accumulatedSecondMoment s1"
    unfolding eager_state_def by simp_all
  have t: "tidy_update s2 x y g z e = tidy_update s1 x y g z e" for x y z e
    by (rule tidy_update_params [OF p, symmetric])
  have q: "same_eager
      (s1\<lparr>accumulatedFirstMoment := x, accumulatedSecondMoment := y\<rparr>, z)
      (s2\<lparr>accumulatedFirstMoment := x, accumulatedSecondMoment := y\<rparr>, z)" for x y z
    using p unfolding same_eager_def eager_state_def params_def by simp
  show ?thesis
    unfolding update_variable_def Let_def fst_conv snd_conv m t
    apply (rule ebind_rel_same)
    apply (simp only: split_def)
    apply (rule ebind_rel_same)
    apply (rule ebind_rel_same)
    apply (simp add: q)
    done
qed

lemma update_variable_same:
  assumes "same_eager st1 st2"
  shows "rel_sum (=) same_eager (update_variable n g st1) (update_variable n g st2)"
proof -
  obtain s1 eng1 where st1: "st1 = (s1, eng1)" by (cases st1)
  obtain s2 eng2 where st2: "st2 = (s2, eng2)" by (cases st2)
  from assms have e: "eager_state s1 = eager_state s2" and v: "eng2 = eng1"
    unfolding same_eager_def st1 st2 fst_conv snd_conv by simp_all
  show ?thesis
    unfolding st1 st2 v by (rule update_variable_same_vars [OF e])
qed

lemma apply_loop_same:
  "same_eager st1 st2 \<Longrightarrow> rel_sum (=) same_eager (apply_loop gs st1) (apply_loop gs st2)"
proof (induction gs arbitrary: st1 st2)
  case Nil
  then show ?case by simp
next
  case (Cons x gs)
  obtain n g where x: "x = (n, g)" by (cases x)
  show ?case
    unfolding x apply_loop.simps
    by (rule ebind_rel [OF update_variable_same [OF Cons.prems]]) (rule Cons.IH)
qed

text \<open>
  C9. Two calls of \<^verbatim>\<open>applyGradients\<close> with the same gradient map, from states with equal
  scalars, equal moment maps and equal stores of variables, either raise the same error
  or return states with equal scalars, equal moment maps and equal stores of variables.
  The model of the call is a function: it has no retry and no choice.
\<close>

theorem applyGradients_deterministic:
  assumes "same_eager st1 st2"
  shows "rel_sum (=) same_eager (applyGradients gs st1) (applyGradients gs st2)"
  unfolding applyGradients_def
proof (rule ebind_rel [OF apply_loop_same [OF assms]])
  fix x y :: "AdamOptimizer \<times> Engine"
  assume "same_eager x y"
  then show "rel_sum (=) same_eager
      (case x of (s, eng) \<Rightarrow>
         Inr (s\<lparr>accBeta1 := accBeta1 s * beta1 s, accBeta2 := accBeta2 s * beta2 s\<rparr>, eng))
      (case y of (s, eng) \<Rightarrow>
         Inr (s\<lparr>accBeta1 := accBeta1 s * beta1 s, accBeta2 := accBeta2 s * beta2 s\<rparr>, eng))"
    by (cases x, cases y) (simp add: same_eager_def eager_state_def params_def)
qed

theorem applyGradients_deterministic_witness:
  "same_eager (ex_opt0, ex_eng0) (ex_opt0\<lparr>firstMomentGraph := [0 \<mapsto> ex_w0]\<rparr>, ex_eng0) \<and>
   applyGradients [(''w'', ex_g1)] (ex_opt0, ex_eng0) = Inr (ex_opt1, ex_eng1) \<and>
   (\<exists>st2. applyGradients [(''w'', ex_g1)] (ex_opt0\<lparr>firstMomentGraph := [0 \<mapsto> ex_w0]\<rparr>, ex_eng0) = Inr st2
      \<and> same_eager (ex_opt1, ex_eng1) st2)"
proof -
  have h: "same_eager (ex_opt0, ex_eng0) (ex_opt0\<lparr>firstMomentGraph := [0 \<mapsto> ex_w0]\<rparr>, ex_eng0)"
    by (simp add: same_eager_def eager_state_def params_def)
  from applyGradients_deterministic [OF h, of "[(''w'', ex_g1)]"] h example_call
  show ?thesis
    by (cases "applyGradients [(''w'', ex_g1)] (ex_opt0\<lparr>firstMomentGraph := [0 \<mapsto> ex_w0]\<rparr>, ex_eng0)")
      simp_all
qed

subsection \<open>Graph mode\<close>
















subsection \<open>Creation and shape of the moments\<close>

lemma tidy_update_eq_Inr:
  "tidy_update s x y g z eng = Inr eng' \<longleftrightarrow>
     (\<exists>fm a sm b eng1 eng2 q v nv.
        registeredVariables eng x = Some fm \<and>
        addT (mulS (beta1 s) fm) (mulS (one s - beta1 s) g) = Inr a \<and>
        registeredVariables eng y = Some sm \<and>
        addT (mulS (beta2 s) sm) (mulS (one s - beta2 s) (squareT g)) = Inr b \<and>
        assign x a eng = Inr eng1 \<and> assign y b eng1 = Inr eng2 \<and>
        divT (divS a (one s - accBeta1 s)) (addS (eps s) (sqrtT (divS b (one s - accBeta2 s))))
          = Inr q \<and>
        registeredVariables eng2 z = Some v \<and>
        addT (mulS (c s) q) v = Inr nv \<and> assign z nv eng2 = Inr eng')"
  unfolding tidy_update_def Let_def ebind_eq_Inr read_eq_Inr by blast

lemma assign_store:
  assumes "assign x t eng = Inr eng'"
  shows "registeredVariables eng' = (registeredVariables eng)(x \<mapsto> t)"
    and "\<exists>cur. registeredVariables eng x = Some cur \<and> shape t = shape cur"
  using assms unfolding assign_eq_Inr by auto

text \<open>After the closure the three variables hold tensors of the gradient's shape, and
  every variable of the store has the shape it had.\<close>

lemma tidy_update_shapes:
  assumes "tidy_update s x y g z eng = Inr eng'"
  shows "\<exists>a b v. registeredVariables eng' x = Some a \<and> registeredVariables eng' y = Some b \<and>
           registeredVariables eng' z = Some v \<and>
           shape a = shape g \<and> shape b = shape g \<and> shape v = shape g"
    and "\<forall>u t. registeredVariables eng u = Some t \<longrightarrow>
           (\<exists>t'. registeredVariables eng' u = Some t' \<and> shape t' = shape t)"
proof -
  from assms [unfolded tidy_update_eq_Inr] obtain fm a sm b eng1 eng2 q v nv where
    fm: "registeredVariables eng x = Some fm" and
    a: "addT (mulS (beta1 s) fm) (mulS (one s - beta1 s) g) = Inr a" and
    sm: "registeredVariables eng y = Some sm" and
    b: "addT (mulS (beta2 s) sm) (mulS (one s - beta2 s) (squareT g)) = Inr b" and
    a1: "assign x a eng = Inr eng1" and a2: "assign y b eng1 = Inr eng2" and
    q: "divT (divS a (one s - accBeta1 s))
         (addS (eps s) (sqrtT (divS b (one s - accBeta2 s)))) = Inr q" and
    v: "registeredVariables eng2 z = Some v" and
    nv: "addT (mulS (c s) q) v = Inr nv" and a3: "assign z nv eng2 = Inr eng'"
    by blast
  from addT_shape [OF a] have sa: "shape a = shape g" by simp
  from addT_shape [OF b] have sb: "shape b = shape g" by simp
  from divT_shape [OF q] sa have sq: "shape q = shape g" by simp
  from addT_shape [OF nv] sq have snv: "shape nv = shape g" by simp
  note s1 = assign_store [OF a1] and s2 = assign_store [OF a2] and s3 = assign_store [OF a3]
  have r': "registeredVariables eng' = (registeredVariables eng)(x \<mapsto> a, y \<mapsto> b, z \<mapsto> nv)"
    by (simp add: s1(1) s2(1) s3(1))
  show "\<exists>a b v. registeredVariables eng' x = Some a \<and> registeredVariables eng' y = Some b \<and>
           registeredVariables eng' z = Some v \<and>
           shape a = shape g \<and> shape b = shape g \<and> shape v = shape g"
    using sa sb snv by (simp add: r')
  show "\<forall>u t. registeredVariables eng u = Some t \<longrightarrow>
           (\<exists>t'. registeredVariables eng' u = Some t' \<and> shape t' = shape t)"
  proof (intro allI impI)
    fix u t assume u: "registeredVariables eng u = Some t"
    from s1(2) obtain c1 where c1: "registeredVariables eng x = Some c1" "shape a = shape c1"
      by blast
    have 1: "\<exists>t1. registeredVariables eng1 u = Some t1 \<and> shape t1 = shape t"
      using u c1 by (cases "u = x") (simp_all add: s1(1))
    then obtain t1 where t1: "registeredVariables eng1 u = Some t1" "shape t1 = shape t"
      by blast
    from s2(2) obtain c2 where c2: "registeredVariables eng1 y = Some c2" "shape b = shape c2"
      by blast
    have 2: "\<exists>t2. registeredVariables eng2 u = Some t2 \<and> shape t2 = shape t"
      using t1 c2 by (cases "u = y") (simp_all add: s2(1))
    then obtain t2 where t2: "registeredVariables eng2 u = Some t2" "shape t2 = shape t"
      by blast
    from s3(2) obtain c3 where c3: "registeredVariables eng2 z = Some c3" "shape nv = shape c3"
      by blast
    show "\<exists>t'. registeredVariables eng' u = Some t' \<and> shape t' = shape t"
      using t2 c3 by (cases "u = z") (simp_all add: s3(1))
  qed
qed

lemma moment_variable_store:
  assumes "moment_variable ms n eng = Inr (ms', m, eng')"
  shows "ms' = ms(n \<mapsto> m)"
    and "\<forall>u t. registeredVariables eng u = Some t \<longrightarrow> registeredVariables eng' u = Some t"
  using assms unfolding moment_variable_eq_Inr by (auto simp: fun_eq_iff)

lemma update_variable_shapes:
  assumes upd: "update_variable n g (s, eng) = Inr (s', eng')"
  shows "\<exists>m1 m2 a b x.
      accumulatedFirstMoment s' = (accumulatedFirstMoment s)(n \<mapsto> m1) \<and>
      accumulatedSecondMoment s' = (accumulatedSecondMoment s)(n \<mapsto> m2) \<and>
      registeredVariables eng' m1 = Some a \<and> registeredVariables eng' m2 = Some b \<and>
      registeredVariables eng' n = Some x \<and> shape a = shape x \<and> shape b = shape x"
    and "\<forall>u t. registeredVariables eng u = Some t \<longrightarrow>
           (\<exists>t'. registeredVariables eng' u = Some t' \<and> shape t' = shape t)"
proof -
  from upd [unfolded update_variable_eq_Inr] obtain fm' m1 eng1 sm' m2 eng2 where
    mv1: "moment_variable (accumulatedFirstMoment s) n eng = Inr (fm', m1, eng1)" and
    mv2: "moment_variable (accumulatedSecondMoment s) n eng1 = Inr (sm', m2, eng2)" and
    tidy: "tidy_update s m1 m2 g n eng2 = Inr eng'" and
    s': "s' = s\<lparr>accumulatedFirstMoment := fm', accumulatedSecondMoment := sm'\<rparr>"
    by blast
  note f1 = moment_variable_store [OF mv1] and f2 = moment_variable_store [OF mv2]
  note t = tidy_update_shapes [OF tidy]
  from t(1) obtain a b x where
    abx: "registeredVariables eng' m1 = Some a" "registeredVariables eng' m2 = Some b"
    "registeredVariables eng' n = Some x" "shape a = shape g" "shape b = shape g"
    "shape x = shape g" by blast
  have "accumulatedFirstMoment s' = (accumulatedFirstMoment s)(n \<mapsto> m1)"
    "accumulatedSecondMoment s' = (accumulatedSecondMoment s)(n \<mapsto> m2)"
    by (simp_all add: s' f1(1) f2(1))
  with abx show "\<exists>m1 m2 a b x.
      accumulatedFirstMoment s' = (accumulatedFirstMoment s)(n \<mapsto> m1) \<and>
      accumulatedSecondMoment s' = (accumulatedSecondMoment s)(n \<mapsto> m2) \<and>
      registeredVariables eng' m1 = Some a \<and> registeredVariables eng' m2 = Some b \<and>
      registeredVariables eng' n = Some x \<and> shape a = shape x \<and> shape b = shape x"
    by auto
  show "\<forall>u t. registeredVariables eng u = Some t \<longrightarrow>
           (\<exists>t'. registeredVariables eng' u = Some t' \<and> shape t' = shape t)"
  proof (intro allI impI)
    fix u t assume "registeredVariables eng u = Some t"
    with f1(2) have "registeredVariables eng1 u = Some t" by blast
    with f2(2) have "registeredVariables eng2 u = Some t" by blast
    with t(2) show "\<exists>t'. registeredVariables eng' u = Some t' \<and> shape t' = shape t" by blast
  qed
qed

lemma update_variable_shaped:
  assumes inv: "moments_shaped N init st" and upd: "update_variable n g st = Inr st'"
  shows "moments_shaped (insert n N) init st'"
proof -
  obtain s eng s' eng' where st: "st = (s, eng)" "st' = (s', eng')"
    by (cases st, cases st') auto
  from inv have
    d1: "\<And>k. k \<in> N \<longleftrightarrow> accumulatedFirstMoment s k \<noteq> None" and
    d2: "\<And>k. k \<in> N \<longleftrightarrow> accumulatedSecondMoment s k \<noteq> None" and
    h1: "\<And>k m. accumulatedFirstMoment s k = Some m \<Longrightarrow>
         \<exists>t x. registeredVariables eng m = Some t \<and>
            registeredVariables eng k = Some x \<and> shape t = shape x" and
    h2: "\<And>k m. accumulatedSecondMoment s k = Some m \<Longrightarrow>
         \<exists>t x. registeredVariables eng m = Some t \<and>
            registeredVariables eng k = Some x \<and> shape t = shape x" and
    i: "\<And>k x0. init k = Some x0 \<Longrightarrow>
         \<exists>x. registeredVariables eng k = Some x \<and> shape x = shape x0"
    unfolding moments_shaped_def st fst_conv snd_conv by blast+
  note u = update_variable_shapes [OF upd [unfolded st]]
  from u(1) obtain m1 m2 a b x where
    fm': "accumulatedFirstMoment s' = (accumulatedFirstMoment s)(n \<mapsto> m1)" and
    sm': "accumulatedSecondMoment s' = (accumulatedSecondMoment s)(n \<mapsto> m2)" and
    new: "registeredVariables eng' m1 = Some a" "registeredVariables eng' m2 = Some b"
      "registeredVariables eng' n = Some x" "shape a = shape x" "shape b = shape x"
    by blast
  have keep: "\<exists>t' x'. registeredVariables eng' m = Some t' \<and>
            registeredVariables eng' k = Some x' \<and> shape t' = shape x'"
    if "registeredVariables eng m = Some t" "registeredVariables eng k = Some x"
      "shape t = shape x" for m k t x
  proof -
    from u(2) that(1) obtain t' where "registeredVariables eng' m = Some t'" "shape t' = shape t"
      by blast
    moreover from u(2) that(2) obtain x' where
      "registeredVariables eng' k = Some x'" "shape x' = shape x" by blast
    ultimately show ?thesis using that(3) by simp
  qed
  show ?thesis
    unfolding moments_shaped_def st fst_conv snd_conv
  proof (intro conjI allI impI)
    fix k show "k \<in> insert n N \<longleftrightarrow> accumulatedFirstMoment s' k \<noteq> None"
      using d1 [of k] by (simp add: fm')
  next
    fix k show "k \<in> insert n N \<longleftrightarrow> accumulatedSecondMoment s' k \<noteq> None"
      using d2 [of k] by (simp add: sm')
  next
    fix k m assume km: "accumulatedFirstMoment s' k = Some m"
    show "\<exists>t x. registeredVariables eng' m = Some t \<and>
            registeredVariables eng' k = Some x \<and> shape t = shape x"
    proof (cases "k = n")
      case True
      with km have "m = m1" by (simp add: fm')
      with True new show ?thesis by simp
    next
      case False
      with km have "accumulatedFirstMoment s k = Some m" by (simp add: fm')
      from h1 [OF this] keep show ?thesis by blast
    qed
  next
    fix k m assume km: "accumulatedSecondMoment s' k = Some m"
    show "\<exists>t x. registeredVariables eng' m = Some t \<and>
            registeredVariables eng' k = Some x \<and> shape t = shape x"
    proof (cases "k = n")
      case True
      with km have "m = m2" by (simp add: sm')
      with True new show ?thesis by simp
    next
      case False
      with km have "accumulatedSecondMoment s k = Some m" by (simp add: sm')
      from h2 [OF this] keep show ?thesis by blast
    qed
  next
    fix k x0 assume "init k = Some x0"
    from i [OF this] obtain y where y: "registeredVariables eng k = Some y" "shape y = shape x0"
      by blast
    from u(2) y(1) obtain y' where "registeredVariables eng' k = Some y'" "shape y' = shape y"
      by blast
    with y(2) show "\<exists>x. registeredVariables eng' k = Some x \<and> shape x = shape x0" by simp
  qed
qed

lemma apply_loop_shaped:
  "moments_shaped N init st \<Longrightarrow> apply_loop gs st = Inr st'
     \<Longrightarrow> moments_shaped (N \<union> fst ` set gs) init st'"
proof (induction gs arbitrary: N st)
  case Nil
  then show ?case by simp
next
  case (Cons x gs)
  obtain n g where x: "x = (n, g)" by (cases x)
  from Cons.prems(2) obtain st1 where
    upd: "update_variable n g st = Inr st1" and rest: "apply_loop gs st1 = Inr st'"
    by (auto simp: x ebind_eq_Inr)
  from Cons.IH [OF update_variable_shaped [OF Cons.prems(1) upd] rest]
  show ?case by (simp add: x Un_commute insert_commute)
qed

lemma applyGradients_shaped:
  assumes "moments_shaped N init st" "applyGradients gs st = Inr st'"
  shows "moments_shaped (N \<union> fst ` set gs) init st'"
proof -
  from assms(2) obtain s1 eng1 where
    loop: "apply_loop gs st = Inr (s1, eng1)" and
    st': "st' = (s1\<lparr>accBeta1 := accBeta1 s1 * beta1 s1,
                    accBeta2 := accBeta2 s1 * beta2 s1\<rparr>, eng1)"
    by (auto simp: applyGradients_eq_Inr)
  have "moments_shaped X init st' = moments_shaped X init (s1, eng1)" for X
    by (simp add: moments_shaped_def st')
  with apply_loop_shaped [OF assms(1) loop] show ?thesis by simp
qed

lemma run_shaped:
  "moments_shaped N init st \<Longrightarrow> run gss st = Inr st'
     \<Longrightarrow> moments_shaped (N \<union> names_of gss) init st'"
proof (induction gss arbitrary: N st)
  case Nil
  then show ?case by (simp add: names_of_def)
next
  case (Cons gs gss)
  from Cons.prems(2) obtain st1 where
    call: "applyGradients gs st = Inr st1" and rest: "run gss st1 = Inr st'"
    by (auto simp: ebind_eq_Inr)
  from Cons.IH [OF applyGradients_shaped [OF Cons.prems(1) call] rest]
  show ?case by (simp add: names_of_def Un_assoc)
qed

lemma update_variable_held:
  assumes "accumulatedFirstMoment s n = Some m1" "accumulatedSecondMoment s n = Some m2"
  shows "update_variable n g (s, eng) =
     ebind (tidy_update s m1 m2 g n eng) (\<lambda>eng3. Inr (s, eng3))"
  by (simp add: update_variable_def moment_variable_def assms Let_def)

lemma lazy_creation:
  assumes none: "accumulatedFirstMoment s n = None" "accumulatedSecondMoment s n = None"
    and v: "registeredVariables eng n = Some v"
  shows "update_variable n g (s, eng) =
     ebind (variable (zerosLike v) eng) (\<lambda>(m1, eng1).
     ebind (variable (zerosLike v) eng1) (\<lambda>(m2, eng2).
     update_variable n g
       (s\<lparr>accumulatedFirstMoment := (accumulatedFirstMoment s)(n \<mapsto> m1),
          accumulatedSecondMoment := (accumulatedSecondMoment s)(n \<mapsto> m2)\<rparr>, eng2)))"
proof (cases "variable (zerosLike v) eng")
  case (Inl e)
  then show ?thesis
    by (simp add: update_variable_def moment_variable_def none read_Some [OF v] Let_def)
next
  case (Inr p)
  obtain m1 e1 where p: "p = (m1, e1)" by (cases p)
  from Inr [unfolded p variable_eq_Inr] have
    fresh: "registeredVariables eng m1 = None" and
    e1: "registeredVariables e1 = (registeredVariables eng)(m1 \<mapsto> zerosLike v)"
    by auto
  from fresh v have "m1 \<noteq> n" by auto
  then have v': "registeredVariables e1 n = Some v" using v by (simp add: e1)
  have v1: "variable (zerosLike v) eng = Inr (m1, e1)" using Inr p by simp
  have start: "update_variable n g (s, eng) =
      ebind (variable (zerosLike v) e1) (\<lambda>(m2, eng2).
        ebind (tidy_update s m1 m2 g n eng2) (\<lambda>eng3.
          Inr (s\<lparr>accumulatedFirstMoment := (accumulatedFirstMoment s)(n \<mapsto> m1),
                 accumulatedSecondMoment := (accumulatedSecondMoment s)(n \<mapsto> m2)\<rparr>, eng3)))"
    by (cases "variable (zerosLike v) e1")
      (simp_all add: update_variable_def moment_variable_def none read_Some [OF v]
        read_Some [OF v'] v1 Let_def split_def)
  have held: "update_variable n g
     (s\<lparr>accumulatedFirstMoment := (accumulatedFirstMoment s)(n \<mapsto> m1),
        accumulatedSecondMoment := (accumulatedSecondMoment s)(n \<mapsto> m2)\<rparr>, eng2) =
     ebind (tidy_update s m1 m2 g n eng2) (\<lambda>eng3.
          Inr (s\<lparr>accumulatedFirstMoment := (accumulatedFirstMoment s)(n \<mapsto> m1),
                 accumulatedSecondMoment := (accumulatedSecondMoment s)(n \<mapsto> m2)\<rparr>, eng3))"
    for m2 eng2
  proof -
    let ?s2 = "s\<lparr>accumulatedFirstMoment := (accumulatedFirstMoment s)(n \<mapsto> m1),
        accumulatedSecondMoment := (accumulatedSecondMoment s)(n \<mapsto> m2)\<rparr>"
    have "params ?s2 = params s" by (simp add: params_def)
    from tidy_update_params [OF this]
    have "tidy_update ?s2 m1 m2 g n eng2 = tidy_update s m1 m2 g n eng2" .
    with update_variable_held [of ?s2 n m1 m2 g eng2] show ?thesis by simp
  qed
  show ?thesis
    unfolding start v1 ebind_Inr prod.case held ..
qed

text \<open>
  C6. When a name has no moment yet, its update first makes two variables of
  \<^verbatim>\<open>zerosLike(value)\<close>, zero and of the value's shape, its first and its second moment,
  and proceeds as the update of a name that has them. After any sequence of calls that
  return, starting from a fresh optimizer, the names that have a first moment, and those
  that have a second moment, are exactly the names passed in some gradient map so far;
  for each of them both moments have the shape of the registered value, which is the
  shape the value had at the start when the name was registered then. An entry, once
  created, is there after every later call.
\<close>

theorem moments_created_and_kept:
  "(accumulatedFirstMoment s n = None \<and> accumulatedSecondMoment s n = None \<and>
    registeredVariables eng n = Some v \<longrightarrow>
      zero_tensor (zerosLike v) \<and> shape (zerosLike v) = shape v \<and>
      update_variable n g (s, eng) =
        ebind (variable (zerosLike v) eng) (\<lambda>(m1, eng1).
        ebind (variable (zerosLike v) eng1) (\<lambda>(m2, eng2).
        update_variable n g
          (s\<lparr>accumulatedFirstMoment := (accumulatedFirstMoment s)(n \<mapsto> m1),
             accumulatedSecondMoment := (accumulatedSecondMoment s)(n \<mapsto> m2)\<rparr>, eng2)))) \<and>
   (run gss (constructor lr b1 b2 e, init) = Inr (s', eng') \<longrightarrow>
      (\<forall>k. k \<in> names_of gss \<longleftrightarrow> accumulatedFirstMoment s' k \<noteq> None) \<and>
      (\<forall>k. k \<in> names_of gss \<longleftrightarrow> accumulatedSecondMoment s' k \<noteq> None) \<and>
      (\<forall>k \<in> names_of gss. \<exists>m1 m2 x.
          firstMoment_of (s', eng') k = Some m1 \<and> secondMoment_of (s', eng') k = Some m2 \<and>
          registeredVariables eng' k = Some x \<and>
          shape m1 = shape x \<and> shape m2 = shape x \<and>
          (\<forall>x0. registeredVariables init k = Some x0 \<longrightarrow> shape x = shape x0)))"
proof (intro conjI impI)
  assume "accumulatedFirstMoment s n = None \<and> accumulatedSecondMoment s n = None \<and>
    registeredVariables eng n = Some v"
  then show "update_variable n g (s, eng) =
        ebind (variable (zerosLike v) eng) (\<lambda>(m1, eng1).
        ebind (variable (zerosLike v) eng1) (\<lambda>(m2, eng2).
        update_variable n g
          (s\<lparr>accumulatedFirstMoment := (accumulatedFirstMoment s)(n \<mapsto> m1),
             accumulatedSecondMoment := (accumulatedSecondMoment s)(n \<mapsto> m2)\<rparr>, eng2)))"
    by (intro lazy_creation) simp_all
next
  show "zero_tensor (zerosLike v)"
    by (simp add: zero_tensor_def zerosLike_def list_all_length)
next
  show "shape (zerosLike v) = shape v" by simp
next
  assume run: "run gss (constructor lr b1 b2 e, init) = Inr (s', eng')"
  have "moments_shaped {} (registeredVariables init) (constructor lr b1 b2 e, init)"
    unfolding moments_shaped_def by (simp add: constructor_def)
  from run_shaped [OF this run]
  have inv: "moments_shaped (names_of gss) (registeredVariables init) (s', eng')"
    by simp
  then have
    d1: "\<And>k. k \<in> names_of gss \<longleftrightarrow> accumulatedFirstMoment s' k \<noteq> None" and
    d2: "\<And>k. k \<in> names_of gss \<longleftrightarrow> accumulatedSecondMoment s' k \<noteq> None" and
    h1: "\<And>k m. accumulatedFirstMoment s' k = Some m \<Longrightarrow>
         \<exists>t x. registeredVariables eng' m = Some t \<and>
            registeredVariables eng' k = Some x \<and> shape t = shape x" and
    h2: "\<And>k m. accumulatedSecondMoment s' k = Some m \<Longrightarrow>
         \<exists>t x. registeredVariables eng' m = Some t \<and>
            registeredVariables eng' k = Some x \<and> shape t = shape x" and
    i: "\<And>k x0. registeredVariables init k = Some x0 \<Longrightarrow>
         \<exists>x. registeredVariables eng' k = Some x \<and> shape x = shape x0"
    unfolding moments_shaped_def fst_conv snd_conv by blast+
  show "\<forall>k. k \<in> names_of gss \<longleftrightarrow> accumulatedFirstMoment s' k \<noteq> None"
    using d1 by blast
  show "\<forall>k. k \<in> names_of gss \<longleftrightarrow> accumulatedSecondMoment s' k \<noteq> None"
    using d2 by blast
  show "\<forall>k \<in> names_of gss. \<exists>m1 m2 x.
          firstMoment_of (s', eng') k = Some m1 \<and> secondMoment_of (s', eng') k = Some m2 \<and>
          registeredVariables eng' k = Some x \<and>
          shape m1 = shape x \<and> shape m2 = shape x \<and>
          (\<forall>x0. registeredVariables init k = Some x0 \<longrightarrow> shape x = shape x0)"
  proof
    fix k assume k: "k \<in> names_of gss"
    from k d1 [of k] obtain v1 where m1: "accumulatedFirstMoment s' k = Some v1" by blast
    from k d2 [of k] obtain v2 where m2: "accumulatedSecondMoment s' k = Some v2" by blast
    note m = m1 m2
    from h1 [OF m(1)] obtain t1 x where
      x: "registeredVariables eng' v1 = Some t1" "registeredVariables eng' k = Some x"
      "shape t1 = shape x" by blast
    from h2 [OF m(2)] x(2) obtain t2 where
      t2: "registeredVariables eng' v2 = Some t2" "shape t2 = shape x" by auto
    have "\<forall>x0. registeredVariables init k = Some x0 \<longrightarrow> shape x = shape x0"
      using i [of k] x(2) by auto
    with m x t2 show "\<exists>m1 m2 x.
          firstMoment_of (s', eng') k = Some m1 \<and> secondMoment_of (s', eng') k = Some m2 \<and>
          registeredVariables eng' k = Some x \<and>
          shape m1 = shape x \<and> shape m2 = shape x \<and>
          (\<forall>x0. registeredVariables init k = Some x0 \<longrightarrow> shape x = shape x0)"
      by (simp add: firstMoment_of_def secondMoment_of_def)
  qed
qed

theorem moments_created_and_kept_witness:
  "accumulatedFirstMoment ex_opt0 ''w'' = None \<and> accumulatedSecondMoment ex_opt0 ''w'' = None \<and>
   registeredVariables ex_eng0 ''w'' = Some ex_w0 \<and>
   update_variable ''w'' ex_g1 (ex_opt0, ex_eng0) =
     ebind (variable (zerosLike ex_w0) ex_eng0) (\<lambda>(m1, eng1).
     ebind (variable (zerosLike ex_w0) eng1) (\<lambda>(m2, eng2).
     update_variable ''w'' ex_g1
       (ex_opt0\<lparr>accumulatedFirstMoment := (accumulatedFirstMoment ex_opt0)(''w'' \<mapsto> m1),
            accumulatedSecondMoment := (accumulatedSecondMoment ex_opt0)(''w'' \<mapsto> m2)\<rparr>,
        eng2))) \<and>
   run [[(''w'', ex_g1)]] (constructor 1 (1/2) (1/2) 1, ex_eng0) = Inr (ex_opt1, ex_eng1) \<and>
   ''w'' \<in> names_of [[(''w'', ex_g1)]] \<and>
   (\<exists>m1 m2 x.
      firstMoment_of (ex_opt1, ex_eng1) ''w'' = Some m1 \<and>
      secondMoment_of (ex_opt1, ex_eng1) ''w'' = Some m2 \<and>
      registeredVariables ex_eng1 ''w'' = Some x \<and>
      shape m1 = shape x \<and> shape m2 = shape x \<and> shape x = shape ex_w0)"
proof -
  have h: "accumulatedFirstMoment ex_opt0 ''w'' = None \<and>
      accumulatedSecondMoment ex_opt0 ''w'' = None \<and>
      registeredVariables ex_eng0 ''w'' = Some ex_w0"
    by (simp add: ex_opt0_def constructor_def ex_eng0_def)
  have r: "run [[(''w'', ex_g1)]] (constructor 1 (1/2) (1/2) 1, ex_eng0) = Inr (ex_opt1, ex_eng1)"
    using example_call by (simp add: ex_opt0_def)
  have k: "''w'' \<in> names_of [[(''w'', ex_g1)]]" by (simp add: names_of_def)
  note t = moments_created_and_kept [where s = ex_opt0 and n = "''w''" and eng = ex_eng0
      and v = ex_w0 and g = ex_g1 and gss = "[[(''w'', ex_g1)]]" and lr = 1 and ?b1.0 = "1/2"
      and ?b2.0 = "1/2" and e = 1 and init = ex_eng0 and s' = ex_opt1 and eng' = ex_eng1]
  from t [THEN conjunct1, rule_format, OF h] have
    a: "update_variable ''w'' ex_g1 (ex_opt0, ex_eng0) =
     ebind (variable (zerosLike ex_w0) ex_eng0) (\<lambda>(m1, eng1).
     ebind (variable (zerosLike ex_w0) eng1) (\<lambda>(m2, eng2).
     update_variable ''w'' ex_g1
       (ex_opt0\<lparr>accumulatedFirstMoment := (accumulatedFirstMoment ex_opt0)(''w'' \<mapsto> m1),
            accumulatedSecondMoment := (accumulatedSecondMoment ex_opt0)(''w'' \<mapsto> m2)\<rparr>,
        eng2)))"
    by (elim conjE)
  from t [THEN conjunct2, rule_format, OF r] have
    "\<forall>k \<in> names_of [[(''w'', ex_g1)]]. \<exists>m1 m2 x.
          firstMoment_of (ex_opt1, ex_eng1) k = Some m1 \<and>
          secondMoment_of (ex_opt1, ex_eng1) k = Some m2 \<and>
          registeredVariables ex_eng1 k = Some x \<and>
          shape m1 = shape x \<and> shape m2 = shape x \<and>
          (\<forall>x0. registeredVariables ex_eng0 k = Some x0 \<longrightarrow> shape x = shape x0)"
    by (elim conjE)
  from this [rule_format, OF k] obtain m1 m2 x where
    b: "firstMoment_of (ex_opt1, ex_eng1) ''w'' = Some m1"
      "secondMoment_of (ex_opt1, ex_eng1) ''w'' = Some m2"
      "registeredVariables ex_eng1 ''w'' = Some x"
      "shape m1 = shape x" "shape m2 = shape x"
      "\<forall>x0. registeredVariables ex_eng0 ''w'' = Some x0 \<longrightarrow> shape x = shape x0"
    by (elim exE conjE)
  from b(6) h have "shape x = shape ex_w0" by simp
  with b have c: "\<exists>m1 m2 x.
      firstMoment_of (ex_opt1, ex_eng1) ''w'' = Some m1 \<and>
      secondMoment_of (ex_opt1, ex_eng1) ''w'' = Some m2 \<and>
      registeredVariables ex_eng1 ''w'' = Some x \<and>
      shape m1 = shape x \<and> shape m2 = shape x \<and> shape x = shape ex_w0"
    by blast
  from h have h': "accumulatedFirstMoment ex_opt0 ''w'' = None"
    "accumulatedSecondMoment ex_opt0 ''w'' = None"
    "registeredVariables ex_eng0 ''w'' = Some ex_w0" by simp_all
  show ?thesis
    by (intro conjI h' a r k c)
qed

subsection \<open>Isolation of the names and order of the gradient map\<close>









end
